theory Spec2Isabelle
  imports Complex_Main "HOL-Library.Word" "HOL-Library.Log_Nat"
begin

section \<open>JavaScript values used by the analyser and the canvas\<close>

text \<open>
  A \<open>Uint8Array\<close> is a list of bytes. A JavaScript number is modelled as a real or
  \<open>NaN\<close>; the propagation of \<open>NaN\<close> through arithmetic and comparisons is represented
  throughout. The rounding of IEEE doubles is represented where a decision depends on it:
  the beat detector has a second translation, \<open>detectBeatD\<close>, in which every division,
  addition and multiplication is rounded to binary64. The translation over exact reals,
  \<open>detectBeat\<close>, serves the properties that hold whatever the rounding (the history, the
  gap test, \<open>NaN\<close>, the range of the result). The geometry of the drawing calls and the
  colour of a spectrogram column are computed over exact reals, where doubles can differ in
  a floored index or a floored channel; no statement below depends on those.
\<close>

type_synonym byte = "8 word"
type_synonym Uint8Array = "byte list"

datatype jsnum = Fin real | NaN

fun js_add :: "jsnum \<Rightarrow> jsnum \<Rightarrow> jsnum" where
  "js_add (Fin a) (Fin b) = Fin (a + b)"
| "js_add _ _ = NaN"

fun js_gt :: "jsnum \<Rightarrow> jsnum \<Rightarrow> bool" where
  "js_gt (Fin a) (Fin b) = (a > b)"
| "js_gt _ _ = False"

text \<open>Multiplying or dividing by a finite non-zero constant keeps \<open>NaN\<close> and maps a
  finite number to a finite number.\<close>

fun js_lift :: "(real \<Rightarrow> real) \<Rightarrow> jsnum \<Rightarrow> jsnum" where
  "js_lift f (Fin a) = Fin (f a)"
| "js_lift f NaN = NaN"

section \<open>Rounding to binary64\<close>

text \<open>
  Round to nearest, ties to even, with 53 significant bits. \<open>binaryExponent x\<close> is, for
  positive \<open>x\<close>, the \<open>e\<close> with \<open>2^e \<le> x < 2^(e+1)\<close>; the significand is rounded on the
  grid of step \<open>2^(e-52)\<close>. The exponent is not bounded: the numbers of the beat detector
  (bytes, their sums, means and 1.5 times a mean) stay far from the overflow and subnormal
  ranges of binary64.
\<close>

definition roundHalfEven :: "real \<Rightarrow> int" where
  "roundHalfEven q =
     (let n = \<lfloor>q\<rfloor>; f = q - of_int n
      in if f < 1 / 2 then n else if 1 / 2 < f then n + 1 else if even n then n else n + 1)"

definition binaryExponent :: "real \<Rightarrow> int" where
  "binaryExponent x = (if 1 \<le> x then bitlen \<lfloor>x\<rfloor> - 1 else - bitlen (\<lceil>1 / x\<rceil> - 1))"

text \<open>\<open>round64 x\<close> is the double nearest to the real \<open>x\<close>.\<close>

definition round64 :: "real \<Rightarrow> real" where
  "round64 x =
     (if x = 0 then 0
      else let e = binaryExponent \<bar>x\<bar>;
               m = roundHalfEven (\<bar>x\<bar> * 2 powi (52 - e))
           in sgn x * (of_int m * 2 powi (e - 52)))"

section \<open>useAudioManager: beat detection\<close>

text \<open>The two refs \<open>beatHistoryRef\<close> and \<open>lastBeatTimeRef\<close>, and the record returned by
  \<open>detectBeat\<close>.\<close>

record BeatRefs =
  beatHistoryRef :: "jsnum list"
  lastBeatTimeRef :: int

record BeatState =
  beatDetected :: bool
  bassEnergy :: jsnum

definition initialRefs :: BeatRefs where
  "initialRefs = \<lparr>beatHistoryRef = [], lastBeatTimeRef = 0\<rparr>"

text \<open>\<open>Math.floor(frequencyData.length * 0.1)\<close>.\<close>

definition bassRange :: "Uint8Array \<Rightarrow> nat" where
  "bassRange frequencyData = nat \<lfloor>real (length frequencyData) * (1 / 10)\<rfloor>"

text \<open>\<open>for (let i = 0; i < bassRange; i++) bassSum += frequencyData[i]\<close>; every index read
  is below \<open>bassRange\<close>, hence inside the buffer.\<close>

definition bassSum :: "Uint8Array \<Rightarrow> nat" where
  "bassSum frequencyData =
     fold (\<lambda>i acc. acc + unat (frequencyData ! i)) [0..<bassRange frequencyData] 0"

text \<open>\<open>bassSum / bassRange\<close>. When \<open>bassRange\<close> is 0 the loop has not run, \<open>bassSum\<close> is 0 and
  the quotient \<open>0 / 0\<close> is \<open>NaN\<close>.\<close>

definition rawBassEnergy :: "Uint8Array \<Rightarrow> jsnum" where
  "rawBassEnergy frequencyData =
     (if bassRange frequencyData = 0 then NaN
      else Fin (real (bassSum frequencyData) / real (bassRange frequencyData)))"

text \<open>\<open>push\<close>, then \<open>shift\<close> when more than 20 samples are held.\<close>

definition pushHistory :: "jsnum list \<Rightarrow> jsnum \<Rightarrow> jsnum list" where
  "pushHistory history e =
     (let pushed = history @ [e] in if length pushed > 20 then tl pushed else pushed)"

text \<open>\<open>history.reduce((sum, val) => sum + val, 0) / history.length\<close>; the history has just
  been pushed to, so its length is not 0.\<close>

definition avgBassEnergy :: "jsnum list \<Rightarrow> jsnum" where
  "avgBassEnergy history =
     js_lift (\<lambda>s. s / real (length history)) (foldl js_add (Fin 0) history)"

text \<open>\<open>detectBeat\<close>, with the result of \<open>Date.now()\<close> as the parameter \<open>now\<close>.\<close>

definition detectBeat :: "BeatRefs \<Rightarrow> int \<Rightarrow> Uint8Array \<Rightarrow> BeatRefs \<times> BeatState" where
  "detectBeat refs now frequencyData =
     (let energy = rawBassEnergy frequencyData;
          history = pushHistory (beatHistoryRef refs) energy;
          beatThreshold = js_lift (\<lambda>a. a * (3 / 2)) (avgBassEnergy history);
          timeSinceLastBeat = now - lastBeatTimeRef refs;
          beat = (js_gt energy beatThreshold \<and> timeSinceLastBeat > 200 \<and> length history \<ge> 10)
      in (\<lparr>beatHistoryRef = history,
           lastBeatTimeRef = (if beat then now else lastBeatTimeRef refs)\<rparr>,
          \<lparr>beatDetected = beat, bassEnergy = js_lift (\<lambda>e. e / 255) energy\<rparr>))"

text \<open>A sequence of ticks: each call of \<open>detectBeat\<close> gets the time of its tick and the
  frequency buffer of its tick; the refs are threaded through.\<close>

fun detectBeats :: "BeatRefs \<Rightarrow> (int \<times> Uint8Array) list \<Rightarrow> BeatRefs \<times> BeatState list" where
  "detectBeats refs [] = (refs, [])"
| "detectBeats refs ((now, frequencyData) # ticks) =
     (let (refs1, out) = detectBeat refs now frequencyData;
          (refs2, outs) = detectBeats refs1 ticks
      in (refs2, out # outs))"

subsection \<open>The beat detector in binary64\<close>

text \<open>
  The same function with the rounding of its arithmetic written out. \<open>bassSum\<close> is a sum
  of bytes, an integer below \<open>2^53\<close>, hence exact; the quotient by \<open>bassRange\<close>, every
  addition of \<open>reduce\<close> (from the initial 0, left to right), the quotient by the length,
  the product with 1.5 and the quotient by 255 are each rounded. The comparison and the
  times (integers) are exact.
\<close>

fun js_addD :: "jsnum \<Rightarrow> jsnum \<Rightarrow> jsnum" where
  "js_addD (Fin a) (Fin b) = Fin (round64 (a + b))"
| "js_addD _ _ = NaN"

definition rawBassEnergyD :: "Uint8Array \<Rightarrow> jsnum" where
  "rawBassEnergyD frequencyData =
     (if bassRange frequencyData = 0 then NaN
      else Fin (round64 (real (bassSum frequencyData) / real (bassRange frequencyData))))"

definition avgBassEnergyD :: "jsnum list \<Rightarrow> jsnum" where
  "avgBassEnergyD history =
     js_lift (\<lambda>s. round64 (s / real (length history))) (foldl js_addD (Fin 0) history)"

definition detectBeatD :: "BeatRefs \<Rightarrow> int \<Rightarrow> Uint8Array \<Rightarrow> BeatRefs \<times> BeatState" where
  "detectBeatD refs now frequencyData =
     (let energy = rawBassEnergyD frequencyData;
          history = pushHistory (beatHistoryRef refs) energy;
          beatThreshold = js_lift (\<lambda>a. round64 (a * (3 / 2))) (avgBassEnergyD history);
          timeSinceLastBeat = now - lastBeatTimeRef refs;
          beat = (js_gt energy beatThreshold \<and> timeSinceLastBeat > 200 \<and> length history \<ge> 10)
      in (\<lparr>beatHistoryRef = history,
           lastBeatTimeRef = (if beat then now else lastBeatTimeRef refs)\<rparr>,
          \<lparr>beatDetected = beat, bassEnergy = js_lift (\<lambda>e. round64 (e / 255)) energy\<rparr>))"

fun detectBeatsD :: "BeatRefs \<Rightarrow> (int \<times> Uint8Array) list \<Rightarrow> BeatRefs \<times> BeatState list" where
  "detectBeatsD refs [] = (refs, [])"
| "detectBeatsD refs ((now, frequencyData) # ticks) =
     (let (refs1, out) = detectBeatD refs now frequencyData;
          (refs2, outs) = detectBeatsD refs1 ticks
      in (refs2, out # outs))"

section \<open>VisualizerCanvas: drawing surface\<close>

text \<open>
  The audio data handed to the canvas: the fields of \<open>AudioData\<close>, the two beat fields
  first.
\<close>

record AudioData = BeatState +
  frequencyData :: Uint8Array
  timeData :: Uint8Array
  dataArray :: Uint8Array

datatype VisualizerMode = Bars | Waveform | Circular | Particles | Spectrogram

text \<open>An \<open>ImageData\<close>: its \<open>data\<close> is a \<open>Uint8ClampedArray\<close> of \<open>width * height * 4\<close>
  bytes, row-major, four channels per pixel.\<close>

record ImageData =
  width :: nat
  height :: nat
  data :: "byte list"

text \<open>\<open>createImageData\<close> gives transparent black and raises \<open>IndexSizeError\<close> when a
  dimension is zero.\<close>

datatype error = IndexSizeError

definition createImageData :: "nat \<Rightarrow> nat \<Rightarrow> error + ImageData" where
  "createImageData w h =
     (if w = 0 \<or> h = 0 then Inl IndexSizeError
      else Inr \<lparr>width = w, height = h, data = replicate (w * h * 4) 0\<rparr>)"

definition bindE :: "error + 'a \<Rightarrow> ('a \<Rightarrow> error + 'b) \<Rightarrow> error + 'b" where
  "bindE r f = (case r of Inl e \<Rightarrow> Inl e | Inr x \<Rightarrow> f x)"

text \<open>Reading a typed array outside its bounds gives \<open>undefined\<close>, which a clamped array
  stores as 0; writing outside its bounds does nothing, as \<open>list_update\<close> does. Storing a
  number clamps it to \<open>0..255\<close>.\<close>

definition readByte :: "byte list \<Rightarrow> nat \<Rightarrow> byte" where
  "readByte xs i = (if i < length xs then xs ! i else 0)"

definition clampByte :: "int \<Rightarrow> byte" where
  "clampByte v = (if v < 0 then 0 else if v > 255 then 255 else word_of_int v)"

text \<open>
  The drawing calls that reach the canvas, each with the \<open>globalAlpha\<close> in force when it
  was issued (\<open>putImageData\<close> ignores \<open>globalAlpha\<close>). Geometry is kept, fill and stroke
  styles are not. \<open>FillEmptyPath\<close> is a \<open>fill\<close> after an \<open>arc\<close> that was ignored because an
  argument was \<open>NaN\<close>.
\<close>

datatype drawop =
    FillRect real real real real real
  | StrokePath "(real \<times> real) list" real
  | FillArc real real real real
  | FillEmptyPath real
  | PutImageData ImageData

fun alphaOf :: "drawop \<Rightarrow> real" where
  "alphaOf (FillRect x y w h a) = a"
| "alphaOf (StrokePath ps a) = a"
| "alphaOf (FillArc x y r a) = a"
| "alphaOf (FillEmptyPath a) = a"
| "alphaOf (PutImageData img) = 1"

text \<open>The canvas with its 2D context (\<open>ctx.canvas.width\<close>, \<open>ctx.canvas.height\<close>,
  \<open>ctx.globalAlpha\<close>, the calls drawn so far) and the ref \<open>spectrogramDataRef\<close>. The
  canvas element and its context are taken to exist.\<close>

record Renderer =
  canvasWidth :: nat
  canvasHeight :: nat
  globalAlpha :: real
  drawn :: "drawop list"
  spectrogramDataRef :: "ImageData option"

definition fillRect :: "Renderer \<Rightarrow> real \<Rightarrow> real \<Rightarrow> real \<Rightarrow> real \<Rightarrow> Renderer" where
  "fillRect ctx x y w h = ctx\<lparr>drawn := drawn ctx @ [FillRect x y w h (globalAlpha ctx)]\<rparr>"

definition stroke :: "Renderer \<Rightarrow> (real \<times> real) list \<Rightarrow> Renderer" where
  "stroke ctx path = ctx\<lparr>drawn := drawn ctx @ [StrokePath path (globalAlpha ctx)]\<rparr>"

definition putImageData :: "Renderer \<Rightarrow> ImageData \<Rightarrow> Renderer" where
  "putImageData ctx img = ctx\<lparr>drawn := drawn ctx @ [PutImageData img]\<rparr>"

subsection \<open>drawBarSpectrum\<close>

text \<open>\<open>barCount = Math.min(frequencyData.length / 4, 128)\<close> need not be whole; the loop
  \<open>for (i = 0; i < barCount; i++)\<close> runs for the naturals below its ceiling.\<close>

definition barCount :: "Uint8Array \<Rightarrow> real" where
  "barCount fd = min (real (length fd) / 4) 128"

definition barHeight :: "Uint8Array \<Rightarrow> nat \<Rightarrow> bool \<Rightarrow> nat \<Rightarrow> real" where
  "barHeight fd ch beat i =
     (let dataIndex = nat \<lfloor>(real i / barCount fd) * real (length fd)\<rfloor>;
          h = (real (unat (fd ! dataIndex)) / 255) * real ch * (8 / 10)
      in if beat then h * (12 / 10) else h)"

text \<open>One turn of the loop: the bar at the alpha in force, then the reflection at alpha
  0.2, then \<open>globalAlpha = 1\<close>.\<close>

definition drawBar :: "Uint8Array \<Rightarrow> nat \<Rightarrow> nat \<Rightarrow> bool \<Rightarrow> nat \<Rightarrow> Renderer \<Rightarrow> Renderer" where
  "drawBar fd cw ch beat i ctx =
     (let barWidth = real cw / barCount fd;
          barSpacing = barWidth * (1 / 10);
          actualBarWidth = barWidth - barSpacing;
          bh = barHeight fd ch beat i;
          x = real i * barWidth + barSpacing / 2;
          y = real ch - bh;
          ctx1 = fillRect ctx x y actualBarWidth bh;
          ctx2 = ctx1\<lparr>globalAlpha := 2 / 10\<rparr>;
          ctx3 = fillRect ctx2 x (real ch) actualBarWidth (- bh * (2 / 10))
      in ctx3\<lparr>globalAlpha := 1\<rparr>)"

definition drawBarSpectrum :: "Renderer \<Rightarrow> Uint8Array \<Rightarrow> nat \<Rightarrow> nat \<Rightarrow> bool \<Rightarrow> Renderer" where
  "drawBarSpectrum ctx fd cw ch beat =
     fold (drawBar fd cw ch beat) [0..<nat \<lceil>barCount fd\<rceil>] ctx"

subsection \<open>drawWaveform, drawCircularSpectrum, drawParticles\<close>

definition drawWaveform :: "Renderer \<Rightarrow> Uint8Array \<Rightarrow> nat \<Rightarrow> nat \<Rightarrow> Renderer" where
  "drawWaveform ctx td cw ch =
     (let centerY = real ch / 2;
          amplitude = real ch * (4 / 10)
      in stroke ctx
           (map (\<lambda>i. ((real i / real (length td)) * real cw,
                       centerY + ((real (unat (td ! i)) - 128) / 128) * amplitude))
                [0..<length td]))"

definition drawSpoke :: "Uint8Array \<Rightarrow> nat \<Rightarrow> nat \<Rightarrow> nat \<Rightarrow> Renderer \<Rightarrow> Renderer" where
  "drawSpoke fd cw ch i ctx =
     (let centerX = real cw / 2;
          centerY = real ch / 2;
          radius = min (real cw) (real ch) * (3 / 10);
          spokes = min (real (length fd) / 2) 180;
          angle = (real i / spokes) * pi * 2;
          dataIndex = nat \<lfloor>(real i / spokes) * real (length fd)\<rfloor>;
          bh = (real (unat (fd ! dataIndex)) / 255) * radius * (8 / 10)
      in stroke ctx
           [(centerX + cos angle * radius, centerY + sin angle * radius),
            (centerX + cos angle * (radius + bh), centerY + sin angle * (radius + bh))])"

definition drawCircularSpectrum :: "Renderer \<Rightarrow> Uint8Array \<Rightarrow> nat \<Rightarrow> nat \<Rightarrow> Renderer" where
  "drawCircularSpectrum ctx fd cw ch =
     fold (drawSpoke fd cw ch) [0..<nat \<lceil>min (real (length fd) / 2) 180\<rceil>] ctx"

text \<open>The mean of an empty buffer is \<open>0 / 0\<close>; every \<open>arc\<close> then has \<open>NaN\<close> arguments and is
  ignored, and \<open>fill\<close> fills an empty path.\<close>

definition drawParticle :: "Uint8Array \<Rightarrow> nat \<Rightarrow> nat \<Rightarrow> bool \<Rightarrow> nat \<Rightarrow> Renderer \<Rightarrow> Renderer" where
  "drawParticle fd cw ch beat i ctx =
     (if length fd = 0 then ctx\<lparr>drawn := drawn ctx @ [FillEmptyPath (globalAlpha ctx)]\<rparr>
      else
        let particleCount = (if beat then 100 else 50 :: real);
            avgFreq = real (foldl (\<lambda>sum val. sum + unat val) 0 fd) / real (length fd);
            intensity = avgFreq / 255;
            angle = (real i / particleCount) * pi * 2;
            distance = (if beat then intensity * 200 * (15 / 10) else intensity * 200);
            size = (if beat then (2 + intensity * 6) * (13 / 10) else 2 + intensity * 6);
            x = real cw / 2 + cos angle * distance;
            y = real ch / 2 + sin angle * distance
        in ctx\<lparr>drawn := drawn ctx @ [FillArc x y size (globalAlpha ctx)]\<rparr>)"

definition drawParticles :: "Renderer \<Rightarrow> Uint8Array \<Rightarrow> nat \<Rightarrow> nat \<Rightarrow> bool \<Rightarrow> Renderer" where
  "drawParticles ctx fd cw ch beat =
     fold (drawParticle fd cw ch beat) [0..<(if beat then 100 else 50)] ctx"

subsection \<open>drawSpectrogram\<close>

text \<open>The four channel copies of one pixel, from \<open>srcIndex\<close> in the old buffer to
  \<open>destIndex\<close> in the new one.\<close>

definition copyPixel :: "byte list \<Rightarrow> nat \<Rightarrow> nat \<Rightarrow> byte list \<Rightarrow> byte list" where
  "copyPixel src srcIndex destIndex dst =
     dst[destIndex := readByte src srcIndex,
         destIndex + 1 := readByte src (srcIndex + 1),
         destIndex + 2 := readByte src (srcIndex + 2),
         destIndex + 3 := readByte src (srcIndex + 3)]"

definition shiftRow :: "byte list \<Rightarrow> nat \<Rightarrow> nat \<Rightarrow> byte list \<Rightarrow> byte list" where
  "shiftRow src cw y dst =
     fold (\<lambda>x. copyPixel src (((y * cw) + (x + 1)) * 4) (((y * cw) + x) * 4)) [0..<cw - 1] dst"

definition shiftLeft :: "byte list \<Rightarrow> nat \<Rightarrow> nat \<Rightarrow> byte list \<Rightarrow> byte list" where
  "shiftLeft src cw ch dst = fold (shiftRow src cw) [0..<ch] dst"

definition frequencyBins :: "Uint8Array \<Rightarrow> nat \<Rightarrow> real" where
  "frequencyBins fd ch = min (real (length fd) / 2) (real ch)"

definition writeColumnPixel :: "Uint8Array \<Rightarrow> nat \<Rightarrow> nat \<Rightarrow> nat \<Rightarrow> byte list \<Rightarrow> byte list" where
  "writeColumnPixel fd cw ch y dst =
     (let frequencyIndex = nat \<lfloor>(real y / frequencyBins fd ch) * real (length fd)\<rfloor>;
          intensity = real (unat (fd ! frequencyIndex)) / 255;
          r = \<lfloor>intensity * 255\<rfloor>;
          g = \<lfloor>intensity * 128\<rfloor>;
          b = \<lfloor>(1 - intensity) * 255\<rfloor>;
          pixelIndex = ((y * cw) + (cw - 1)) * 4
      in dst[pixelIndex := clampByte r,
             pixelIndex + 1 := clampByte g,
             pixelIndex + 2 := clampByte b,
             pixelIndex + 3 := 255])"

definition writeColumn :: "Uint8Array \<Rightarrow> nat \<Rightarrow> nat \<Rightarrow> byte list \<Rightarrow> byte list" where
  "writeColumn fd cw ch dst =
     fold (writeColumnPixel fd cw ch) [0..<nat \<lceil>frequencyBins fd ch\<rceil>] dst"

text \<open>\<open>for (let i = 0; i < data.length; i += 4) data[i + 3] = 255\<close>.\<close>

definition fillBlack :: "byte list \<Rightarrow> byte list" where
  "fillBlack dst =
     fold (\<lambda>i d. d[i + 3 := 255]) (map (\<lambda>k. 4 * k) [0..<(length dst + 3) div 4]) dst"

definition drawSpectrogram :: "Renderer \<Rightarrow> Uint8Array \<Rightarrow> nat \<Rightarrow> nat \<Rightarrow> error + Renderer" where
  "drawSpectrogram ctx fd cw ch =
     (case spectrogramDataRef ctx of
        Some imageData \<Rightarrow>
          bindE (createImageData cw ch) (\<lambda>newImageData.
            let shifted = shiftLeft (data imageData) cw ch (data newImageData);
                filled = newImageData\<lparr>data := writeColumn fd cw ch shifted\<rparr>
            in Inr (putImageData (ctx\<lparr>spectrogramDataRef := Some filled\<rparr>) filled))
      | None \<Rightarrow>
          bindE (createImageData cw ch) (\<lambda>imageData.
            Inr (ctx\<lparr>spectrogramDataRef := Some (imageData\<lparr>data := fillBlack (data imageData)\<rparr>)\<rparr>)))"

subsection \<open>renderMode and render\<close>

definition renderMode :: "Renderer \<Rightarrow> VisualizerMode \<Rightarrow> AudioData \<Rightarrow> real \<Rightarrow> error + Renderer" where
  "renderMode ctx m audioData opacity =
     (let ctx1 = (if opacity < 1 then ctx\<lparr>globalAlpha := opacity\<rparr> else ctx);
          cw = canvasWidth ctx1;
          ch = canvasHeight ctx1
      in bindE
           (case m of
              Bars \<Rightarrow> Inr (drawBarSpectrum ctx1 (frequencyData audioData) cw ch (beatDetected audioData))
            | Waveform \<Rightarrow> Inr (drawWaveform ctx1 (timeData audioData) cw ch)
            | Circular \<Rightarrow> Inr (drawCircularSpectrum ctx1 (frequencyData audioData) cw ch)
            | Particles \<Rightarrow> Inr (drawParticles ctx1 (frequencyData audioData) cw ch (beatDetected audioData))
            | Spectrogram \<Rightarrow> drawSpectrogram ctx1 (frequencyData audioData) cw ch)
           (\<lambda>ctx2. Inr (if opacity < 1 then ctx2\<lparr>globalAlpha := 1\<rparr> else ctx2)))"

text \<open>The component's props and state that the transition uses: the prop \<open>mode\<close> and the
  states \<open>previousMode\<close>, \<open>isTransitioning\<close>, \<open>transitionProgress\<close>.\<close>

record VisualizerState =
  mode :: VisualizerMode
  previousMode :: VisualizerMode
  isTransitioning :: bool
  transitionProgress :: real

definition initialState :: "VisualizerMode \<Rightarrow> VisualizerState" where
  "initialState m =
     \<lparr>mode = m, previousMode = m, isTransitioning = False, transitionProgress = 0\<rparr>"

text \<open>The updater passed to \<open>setTransitionProgress\<close>.\<close>

definition advanceProgress :: "VisualizerState \<Rightarrow> VisualizerState" where
  "advanceProgress st =
     (let newProgress = transitionProgress st + 5 / 100
      in if newProgress \<ge> 1 then st\<lparr>isTransitioning := False, transitionProgress := 1\<rparr>
         else st\<lparr>transitionProgress := newProgress\<rparr>)"

text \<open>One call of \<open>render\<close>: nothing without audio data; otherwise the fading clear, then
  the transition branch or the normal branch. An exception leaves the call before the state
  is updated.\<close>

definition render :: "VisualizerState \<Rightarrow> Renderer \<Rightarrow> AudioData option \<Rightarrow> error + (VisualizerState \<times> Renderer)" where
  "render st ctx audio =
     (case audio of
        None \<Rightarrow> Inr (st, ctx)
      | Some audioData \<Rightarrow>
          let ctx0 = fillRect ctx 0 0 (real (canvasWidth ctx)) (real (canvasHeight ctx))
          in if isTransitioning st \<and> transitionProgress st < 1 then
               let fadeOutOpacity = 1 - transitionProgress st;
                   fadeInOpacity = transitionProgress st
               in bindE (if fadeOutOpacity > 0
                         then renderMode ctx0 (previousMode st) audioData fadeOutOpacity
                         else Inr ctx0) (\<lambda>ctx1.
                  bindE (if fadeInOpacity > 0
                         then renderMode ctx1 (mode st) audioData fadeInOpacity
                         else Inr ctx1) (\<lambda>ctx2.
                  Inr (advanceProgress st, ctx2)))
             else bindE (renderMode ctx0 (mode st) audioData 1) (\<lambda>ctx1. Inr (st, ctx1)))"


text \<open>The mode-change effect, run after the prop \<open>mode\<close> has changed.\<close>

definition modeChangeEffect :: "VisualizerState \<Rightarrow> VisualizerState" where
  "modeChangeEffect st =
     (if mode st \<noteq> previousMode st
      then st\<lparr>isTransitioning := True, transitionProgress := 0, previousMode := mode st\<rparr>
      else st)"

definition onModeChange :: "VisualizerMode \<Rightarrow> VisualizerState \<Rightarrow> VisualizerState" where
  "onModeChange newMode st = modeChangeEffect (st\<lparr>mode := newMode\<rparr>)"

text \<open>The resize effect: the canvas takes the new size (which resets the context state)
  and is cleared. The effect does not touch \<open>spectrogramDataRef\<close>.\<close>

definition resizeEffect :: "Renderer \<Rightarrow> nat \<Rightarrow> nat \<Rightarrow> Renderer" where
  "resizeEffect ctx w h =
     fillRect (ctx\<lparr>canvasWidth := w, canvasHeight := h, globalAlpha := 1\<rparr>) 0 0 (real w) (real h)"

section \<open>Closed forms used in the statements\<close>

text \<open>The two \<open>fillRect\<close> calls of bar \<open>i\<close>, the bar itself drawn at alpha \<open>a\<close>: the
  geometry is that of \<open>drawBar\<close>.\<close>

definition barCalls :: "Uint8Array \<Rightarrow> nat \<Rightarrow> nat \<Rightarrow> bool \<Rightarrow> real \<Rightarrow> nat \<Rightarrow> drawop list" where
  "barCalls fd cw ch beat a i =
     (let barWidth = real cw / barCount fd;
          barSpacing = barWidth * (1 / 10);
          actualBarWidth = barWidth - barSpacing;
          bh = barHeight fd ch beat i;
          x = real i * barWidth + barSpacing / 2
      in [FillRect x (real ch - bh) actualBarWidth bh a,
          FillRect x (real ch) actualBarWidth (- bh * (2 / 10)) (2 / 10)])"



section \<open>The beat decision as the specification words it\<close>

text \<open>
  The specification's reading of \<open>detect\<close>, over exact numbers: the raw bass energy is the
  arithmetic mean of the first 10% of the frequency entries; the sample is appended to the
  history and the oldest entry evicted when more than 20 are held; a beat needs the sample
  above 1.5 times the mean of the history, more than 200ms since the last beat, and at least
  10 samples in the history.
\<close>

definition spec_mean :: "real list \<Rightarrow> real" where
  "spec_mean xs = sum_list xs / real (length xs)"

definition spec_bassEnergy_raw :: "Uint8Array \<Rightarrow> real" where
  "spec_bassEnergy_raw frequency =
     spec_mean (map (\<lambda>b. real (unat b)) (take (length frequency div 10) frequency))"

definition spec_append_evict :: "real list \<Rightarrow> real \<Rightarrow> real list" where
  "spec_append_evict history e =
     (if length (history @ [e]) > 20 then tl (history @ [e]) else history @ [e])"

definition spec_beatDetected :: "real list \<Rightarrow> real \<Rightarrow> int \<Rightarrow> int \<Rightarrow> bool" where
  "spec_beatDetected history e now lastBeat =
     (e > spec_mean history * 1.5 \<and> now - lastBeat > 200 \<and> length history \<ge> 10)"

text \<open>
  The same reading with the numbers as the program has them, in binary64: the mean of the
  bass range rounded once; the mean of the history summed from 0 in order, each addition
  and the division rounded; the threshold rounded.
\<close>

definition spec_meanD :: "real list \<Rightarrow> real" where
  "spec_meanD xs = round64 (foldl (\<lambda>s x. round64 (s + x)) 0 xs / real (length xs))"

definition spec_bassEnergy_rawD :: "Uint8Array \<Rightarrow> real" where
  "spec_bassEnergy_rawD frequency = round64 (spec_bassEnergy_raw frequency)"

definition spec_beatDetectedD :: "real list \<Rightarrow> real \<Rightarrow> int \<Rightarrow> int \<Rightarrow> bool" where
  "spec_beatDetectedD history e now lastBeat =
     (e > round64 (spec_meanD history * 1.5) \<and> now - lastBeat > 200 \<and> length history \<ge> 10)"

section \<open>Properties of the beat detector\<close>

lemma bassRange_div: "bassRange fd = length fd div 10"
proof -
  have "\<lfloor>real (length fd) * (1 / 10)\<rfloor> = \<lfloor>real (length fd) / real 10\<rfloor>" by simp
  also have "\<dots> = int (length fd div 10)" by (simp only: floor_divide_of_nat_eq)
  finally show ?thesis by (simp add: bassRange_def)
qed

lemma history_after_detectBeat:
  "beatHistoryRef (fst (detectBeat refs now fd)) = pushHistory (beatHistoryRef refs) (rawBassEnergy fd)"
  by (simp add: detectBeat_def Let_def)

lemma pushHistory_drop:
  assumes "length h \<le> 20"
  shows "pushHistory h e = drop (length (h @ [e]) - 20) (h @ [e])"
proof (cases "length h = 20")
  case True
  then have "pushHistory h e = tl (h @ [e])"
    by (simp add: pushHistory_def Let_def)
  also have "\<dots> = drop (Suc 0) (h @ [e])"
    by (simp only: drop_Suc drop_0)
  finally show ?thesis using True by simp
next
  case False
  with assms show ?thesis by (simp add: pushHistory_def Let_def)
qed

lemma drop_drop_window:
  fixes xs :: "'a list"
  shows "drop (length (drop (length xs - 20) xs @ [e]) - 20) (drop (length xs - 20) xs @ [e])
         = drop (length (xs @ [e]) - 20) (xs @ [e])"
proof (cases "length xs \<le> 20")
  case True
  then show ?thesis by simp
next
  case False
  then have l: "length xs > 20" by simp
  then have "length (drop (length xs - 20) xs @ [e]) - 20 = 1" by simp
  moreover have "drop 1 (drop (length xs - 20) xs @ [e]) = drop (Suc (length xs - 20)) xs @ [e]"
    using l by simp
  moreover have "Suc (length xs) - 20 = Suc (length xs - 20)"
    using l by simp
  then have "drop (length (xs @ [e]) - 20) (xs @ [e]) = drop (Suc (length xs - 20)) xs @ [e]"
    using l by simp
  ultimately show ?thesis by simp
qed

lemma detectBeats_history:
  "beatHistoryRef refs = drop (length pre - 20) pre \<Longrightarrow>
   beatHistoryRef (fst (detectBeats refs ticks))
     = drop (length (pre @ map (rawBassEnergy \<circ> snd) ticks) - 20)
            (pre @ map (rawBassEnergy \<circ> snd) ticks)"
proof (induction ticks arbitrary: refs pre)
  case Nil
  then show ?case by simp
next
  case (Cons t ticks)
  obtain now fd where t: "t = (now, fd)" by (cases t)
  let ?refs1 = "fst (detectBeat refs now fd)"
  let ?pre1 = "pre @ [rawBassEnergy fd]"
  have len: "length (beatHistoryRef refs) \<le> 20" using Cons.prems by simp
  have "beatHistoryRef ?refs1 = pushHistory (drop (length pre - 20) pre) (rawBassEnergy fd)"
    using Cons.prems by (simp add: history_after_detectBeat)
  also have "\<dots> = drop (length ?pre1 - 20) ?pre1"
    using len Cons.prems drop_drop_window [of pre "rawBassEnergy fd"]
    by (simp only: pushHistory_drop)
  finally have "beatHistoryRef ?refs1 = drop (length ?pre1 - 20) ?pre1" .
  from Cons.IH [OF this] show ?case
    by (simp add: t split_beta Let_def)
qed

text \<open>
  Claim C4. Over every sequence of \<open>detectBeat\<close> calls from the initial refs the history
  holds at most 20 samples, and it holds exactly the most recent (up to) 20 samples pushed,
  oldest first: the pushed samples with all but the last 20 dropped from the front.
\<close>

theorem C4_history_bounded_fifo:
  "length (beatHistoryRef (fst (detectBeats initialRefs ticks))) \<le> 20 \<and>
   beatHistoryRef (fst (detectBeats initialRefs ticks))
     = drop (length ticks - 20) (map (rawBassEnergy \<circ> snd) ticks)"
proof -
  have "beatHistoryRef initialRefs = drop (length ([]::jsnum list) - 20) []"
    by (simp add: initialRefs_def)
  from detectBeats_history [OF this, of ticks]
  have h: "beatHistoryRef (fst (detectBeats initialRefs ticks))
     = drop (length ticks - 20) (map (rawBassEnergy \<circ> snd) ticks)" by simp
  then show ?thesis by simp
qed

lemma sample_replicate: "rawBassEnergy (replicate 10 b) = Fin (real (unat b))"
  by (simp add: rawBassEnergy_def bassRange_div bassSum_def)

text \<open>Twenty-one pushes of the samples 1 to 21 leave the samples 2 to 21.\<close>

theorem C4_history_bounded_fifo_witness:
  "beatHistoryRef (fst (detectBeats initialRefs
      (map (\<lambda>b. (1000, replicate 10 b))
         [1, 2, 3, 4, 5, 6, 7, 8, 9, 10, 11, 12, 13, 14, 15, 16, 17, 18, 19, 20, 21])))
   = map Fin [2, 3, 4, 5, 6, 7, 8, 9, 10, 11, 12, 13, 14, 15, 16, 17, 18, 19, 20, 21]"
  using C4_history_bounded_fifo [of "map (\<lambda>b. (1000, replicate 10 b))
         [1, 2, 3, 4, 5, 6, 7, 8, 9, 10, 11, 12, 13, 14, 15, 16, 17, 18, 19, 20, 21]"]
  by (simp add: sample_replicate)

lemma fold_index_sum:
  "n \<le> length xs \<Longrightarrow>
   fold (\<lambda>i acc. acc + f (xs ! i)) [0..<n] (a::nat) = a + sum_list (map f (take n xs))"
proof (induction n)
  case 0
  then show ?case by simp
next
  case (Suc n)
  then have "take (Suc n) xs = take n xs @ [xs ! n]"
    by (simp add: take_Suc_conv_app_nth)
  with Suc show ?case by simp
qed

lemma bassSum_take: "bassSum fd = sum_list (map unat (take (bassRange fd) fd))"
  using fold_index_sum [of "bassRange fd" fd unat 0]
  by (simp add: bassSum_def bassRange_div)

lemma sum_list_bytes_le: "sum_list (map unat (bs :: byte list)) \<le> 255 * length bs"
proof (induction bs)
  case Nil
  then show ?case by simp
next
  case (Cons b bs)
  have "unat b < 2 ^ LENGTH(8)" by (rule unsigned_less)
  then have "unat b \<le> 255" by simp
  with Cons show ?case by simp
qed

lemma real_sum_bytes:
  "real (sum_list (map unat (bs :: byte list))) = sum_list (map (\<lambda>b. real (unat b)) bs)"
  by (induction bs) simp_all

lemma bassSum_le: "bassSum fd \<le> 255 * bassRange fd"
proof -
  have "length (take (bassRange fd) fd) = bassRange fd" by (simp add: bassRange_div)
  with sum_list_bytes_le [of "take (bassRange fd) fd"] show ?thesis
    by (simp add: bassSum_take)
qed

lemma rawBassEnergy_spec:
  "length fd \<ge> 10 \<Longrightarrow> rawBassEnergy fd = Fin (spec_bassEnergy_raw fd)"
proof -
  assume l: "length fd \<ge> 10"
  then have r: "bassRange fd \<noteq> 0" by (simp add: bassRange_div)
  have "real (bassSum fd) = sum_list (map (\<lambda>b. real (unat b)) (take (bassRange fd) fd))"
    by (simp only: bassSum_take real_sum_bytes)
  then show ?thesis using r l
    by (simp add: rawBassEnergy_def spec_bassEnergy_raw_def spec_mean_def bassRange_div)
qed


lemma foldl_js_add_Fin: "foldl js_add (Fin a) (map Fin h) = Fin (a + sum_list h)"
  by (induction h arbitrary: a) (simp_all add: add.assoc)

lemma avgBassEnergy_spec: "avgBassEnergy (map Fin h) = Fin (spec_mean h)"
  by (simp add: avgBassEnergy_def spec_mean_def foldl_js_add_Fin)

lemma pushHistory_spec:
  "pushHistory (map Fin h) (Fin e) = map Fin (spec_append_evict h e)"
  by (simp add: pushHistory_def spec_append_evict_def Let_def map_tl)

lemma length_pushHistory:
  "length (pushHistory h e) = (if length h < 20 then Suc (length h) else length h)"
  by (simp add: pushHistory_def Let_def)

lemma warmup_no_beat:
  "length (beatHistoryRef refs) < 9 \<Longrightarrow> \<not> beatDetected (snd (detectBeat refs now fd))"
  by (simp add: detectBeat_def Let_def length_pushHistory)

lemma length_detectBeats: "length (snd (detectBeats refs ticks)) = length ticks"
  by (induction ticks arbitrary: refs) (auto simp: split_beta Let_def)

lemma detectBeats_warmup:
  "length (beatHistoryRef refs) + length ticks \<le> 9 \<Longrightarrow>
   out \<in> set (snd (detectBeats refs ticks)) \<Longrightarrow> \<not> beatDetected out"
proof (induction ticks arbitrary: refs)
  case Nil
  then show ?case by simp
next
  case (Cons t ticks)
  obtain now fd where t: "t = (now, fd)" by (cases t)
  let ?refs1 = "fst (detectBeat refs now fd)"
  have l: "length (beatHistoryRef refs) < 9" using Cons.prems(1) by simp
  have "length (beatHistoryRef ?refs1) + length ticks \<le> 9"
    using Cons.prems(1) by (simp add: history_after_detectBeat length_pushHistory)
  note IH = Cons.IH [OF this]
  from Cons.prems(2) have "out = snd (detectBeat refs now fd) \<or> out \<in> set (snd (detectBeats ?refs1 ticks))"
    by (simp add: t split_beta Let_def)
  then show ?case using IH warmup_no_beat [OF l] by auto
qed

lemma example_16:
  assumes "beatHistoryRef refs = replicate n (Fin 10)" and "n = 9 \<or> n = 10"
    and "now - lastBeatTimeRef refs > 200" and "rawBassEnergy fd = Fin 16"
  shows "beatDetected (snd (detectBeat refs now fd))"
proof -
  have h: "beatHistoryRef refs = map Fin (replicate n 10)"
    using assms(1) by simp
  from assms(2) have "avgBassEnergy (pushHistory (map Fin (replicate n 10)) (Fin 16))
      = Fin ((real n * 10 + 16) / (real n + 1))"
    by (auto simp only: pushHistory_spec avgBassEnergy_spec)
       (simp_all add: spec_append_evict_def spec_mean_def sum_list_replicate)
  with assms show ?thesis
    by (auto simp add: detectBeat_def Let_def h length_pushHistory simp del: map_replicate)
qed

text \<open>\<open>round64\<close> returns a number with a significand of at most 53 bits, within half a
  unit in the last place of its argument.\<close>

lemma roundHalfEven_near: "\<bar>real_of_int (roundHalfEven q) - q\<bar> \<le> 1 / 2"
  unfolding roundHalfEven_def Let_def by (auto; linarith)

lemma binaryExponent_ge1:
  assumes "1 \<le> x"
  shows "2 powi (binaryExponent x) \<le> x \<and> x < 2 powi (binaryExponent x + 1)"
proof -
  let ?n = "\<lfloor>x\<rfloor>"
  have n: "0 < ?n" using assms by simp
  from bitlen_bounds [OF n] have lo: "2 ^ nat (bitlen ?n - 1) \<le> ?n" and hi: "?n < 2 ^ nat (bitlen ?n)"
    by simp_all
  have b1: "1 \<le> bitlen ?n" using n by (simp add: bitlen_alt_def) 
  have e: "binaryExponent x = bitlen ?n - 1" using assms by (simp add: binaryExponent_def)
  have "real_of_int (2 ^ nat (bitlen ?n - 1)) \<le> real_of_int ?n" using lo by linarith
  then have "2 powi (bitlen ?n - 1) \<le> real_of_int ?n"
    using b1 by (simp add: power_int_def)
  then have L: "2 powi (bitlen ?n - 1) \<le> x" by linarith
  have "?n + 1 \<le> 2 ^ nat (bitlen ?n)" using hi by simp
  then have "real_of_int (?n + 1) \<le> real_of_int (2 ^ nat (bitlen ?n))" by linarith
  then have "real_of_int ?n + 1 \<le> 2 powi (bitlen ?n)"
    using b1 by (simp add: power_int_def)
  then have H: "x < 2 powi (bitlen ?n - 1 + 1)" by (simp, linarith)
  from L H e show ?thesis by simp
qed

lemma binaryExponent_lt1:
  assumes "0 < x" and "x < 1"
  shows "2 powi (binaryExponent x) \<le> x \<and> x < 2 powi (binaryExponent x + 1)"
proof -
  let ?y = "1 / x"
  let ?k = "\<lceil>?y\<rceil> - 1"
  have y: "1 < ?y" using assms by simp
  then have k: "0 < ?k" by linarith
  from bitlen_bounds [OF k] have lo: "2 ^ nat (bitlen ?k - 1) \<le> ?k" and hi: "?k < 2 ^ nat (bitlen ?k)"
    by simp_all
  have b1: "1 \<le> bitlen ?k" using k by (simp add: bitlen_alt_def)
  have e: "binaryExponent x = - bitlen ?k" using assms by (simp add: binaryExponent_def)
  have pw: "real_of_int (2 ^ nat (bitlen ?k)) = 2 powi (bitlen ?k)"
    and pw1: "real_of_int (2 ^ nat (bitlen ?k - 1)) = 2 powi (bitlen ?k - 1)"
    using b1 by (simp_all add: power_int_def)
  have pos: "0 < (2::real) powi (bitlen ?k - 1)" and pos': "0 < (2::real) powi (bitlen ?k)"
    by simp_all
  have "\<lceil>?y\<rceil> \<le> 2 ^ nat (bitlen ?k)" using hi by simp
  then have "real_of_int \<lceil>?y\<rceil> \<le> real_of_int (2 ^ nat (bitlen ?k))" by linarith
  moreover have "?y \<le> real_of_int \<lceil>?y\<rceil>" by linarith
  ultimately have "?y \<le> 2 powi (bitlen ?k)" unfolding pw by linarith
  then have "1 \<le> 2 powi (bitlen ?k) * x"
    using assms(1) by (simp add: field_simps)
  then have "inverse (2 powi (bitlen ?k)) \<le> x"
    using pos' by (simp add: field_simps)
  then have L: "2 powi (- bitlen ?k) \<le> x"
    by (simp add: power_int_minus)
  have "real_of_int (2 ^ nat (bitlen ?k - 1)) \<le> real_of_int ?k" using lo by linarith
  then have "2 powi (bitlen ?k - 1) \<le> real_of_int ?k" unfolding pw1 .
  moreover have "real_of_int ?k < ?y" by linarith
  ultimately have "2 powi (bitlen ?k - 1) < ?y" by linarith
  then have "2 powi (bitlen ?k - 1) * x < 1"
    using assms(1) by (simp add: field_simps)
  then have "x < inverse (2 powi (bitlen ?k - 1))"
    using pos by (simp add: field_simps)
  moreover have "- bitlen ?k + 1 = - (bitlen ?k - 1)" by simp
  ultimately have H: "x < 2 powi (- bitlen ?k + 1)"
    by (simp only: power_int_minus)
  from L H e show ?thesis by simp
qed

lemma binaryExponent_bounds:
  "0 < x \<Longrightarrow> 2 powi (binaryExponent x) \<le> x \<and> x < 2 powi (binaryExponent x + 1)"
  using binaryExponent_ge1 [of x] binaryExponent_lt1 [of x] by (cases "1 \<le> x") auto

lemma round64_nearest:
  assumes "x \<noteq> 0"
  shows "\<exists>m. round64 x = of_int m * 2 powi (binaryExponent \<bar>x\<bar> - 52) \<and>
             \<bar>m\<bar> \<le> 2 ^ 53 \<and>
             \<bar>round64 x - x\<bar> \<le> 2 powi (binaryExponent \<bar>x\<bar> - 53)"
proof -
  let ?e = "binaryExponent \<bar>x\<bar>"
  let ?q = "\<bar>x\<bar> * 2 powi (52 - ?e)"
  let ?m = "roundHalfEven ?q"
  have u: "0 < (2::real) powi (?e - 52)" by simp
  have r: "round64 x = sgn x * (of_int ?m * 2 powi (?e - 52))"
    using assms by (simp add: round64_def Let_def)
  have inv: "(2::real) powi (52 - ?e) * 2 powi (?e - 52) = 1"
    by (simp flip: power_int_add)
  have ax: "\<bar>x\<bar> = ?q * 2 powi (?e - 52)"
    using inv by (simp add: mult.assoc)
  from binaryExponent_bounds [of "\<bar>x\<bar>"] assms
  have bx: "2 powi ?e \<le> \<bar>x\<bar>" "\<bar>x\<bar> < 2 powi (?e + 1)" by simp_all
  have "2 powi ?e * 2 powi (52 - ?e) \<le> ?q"
    using bx(1) by (intro mult_right_mono) simp_all
  then have qlo: "2 ^ 52 \<le> ?q" by (simp flip: power_int_add)
  have "?q < 2 powi (?e + 1) * 2 powi (52 - ?e)"
    using bx(2) by (intro mult_strict_right_mono) simp_all
  then have qhi: "?q < 2 ^ 53" by (simp flip: power_int_add)
  have near: "\<bar>real_of_int ?m - ?q\<bar> \<le> 1 / 2" by (rule roundHalfEven_near)
  have "real_of_int ?m \<le> 2 ^ 53 + 1 / 2" using near qhi by linarith
  then have "real_of_int ?m < real_of_int (2 ^ 53 + 1)" by simp
  then have mhi: "?m \<le> 2 ^ 53" by linarith
  have "(1::real) \<le> 2 ^ 52" by simp
  then have "0 \<le> real_of_int ?m" using near qlo by linarith
  then have mlo: "0 \<le> ?m" by linarith
  have "round64 x - x = sgn x * (of_int ?m * 2 powi (?e - 52) - \<bar>x\<bar>)"
    unfolding r by (simp add: right_diff_distrib mult_sgn_abs)
  then have "\<bar>round64 x - x\<bar> = \<bar>sgn x\<bar> * \<bar>of_int ?m * 2 powi (?e - 52) - \<bar>x\<bar>\<bar>"
    by (simp only: abs_mult)
  also have "\<dots> = \<bar>of_int ?m * 2 powi (?e - 52) - \<bar>x\<bar>\<bar>"
    using assms by (simp add: abs_sgn_eq)
  also have "\<dots> = \<bar>(real_of_int ?m - ?q) * 2 powi (?e - 52)\<bar>"
    by (subst ax) (simp add: algebra_simps)
  also have "\<dots> = \<bar>real_of_int ?m - ?q\<bar> * 2 powi (?e - 52)"
    by (simp add: abs_mult)
  also have "\<dots> \<le> (1 / 2) * 2 powi (?e - 52)"
    using near by (intro mult_right_mono) simp_all
  also have "\<dots> = 2 powi (?e - 53)"
    by (simp add: power_int_diff)
  finally have err: "\<bar>round64 x - x\<bar> \<le> 2 powi (?e - 53)" .
  show ?thesis
  proof (cases "0 < x")
    case True
    with r mlo mhi err show ?thesis
      by (intro exI [of _ ?m]) (simp add: sgn_real_def)
  next
    case False
    with assms r mlo mhi err show ?thesis
      by (intro exI [of _ "- ?m"]) (simp add: sgn_real_def)
  qed
qed

lemma history_after_detectBeatD:
  "beatHistoryRef (fst (detectBeatD refs now fd)) = pushHistory (beatHistoryRef refs) (rawBassEnergyD fd)"
  by (simp add: detectBeatD_def Let_def)

lemma beat_flagD:
  "beatDetected (snd (detectBeatD refs now fd))
     = (js_gt (rawBassEnergyD fd)
          (js_lift (\<lambda>a. round64 (a * (3 / 2)))
             (avgBassEnergyD (pushHistory (beatHistoryRef refs) (rawBassEnergyD fd)))) \<and>
        now - lastBeatTimeRef refs > 200 \<and>
        length (pushHistory (beatHistoryRef refs) (rawBassEnergyD fd)) \<ge> 10)"
  by (simp add: detectBeatD_def Let_def)

lemma lastBeatTime_afterD:
  "lastBeatTimeRef (fst (detectBeatD refs now fd))
     = (if beatDetected (snd (detectBeatD refs now fd)) then now else lastBeatTimeRef refs)"
  by (simp add: detectBeatD_def Let_def)

lemma warmup_no_beatD:
  "length (beatHistoryRef refs) < 9 \<Longrightarrow> \<not> beatDetected (snd (detectBeatD refs now fd))"
  by (simp add: beat_flagD length_pushHistory)

lemma detectBeatsD_Cons:
  "detectBeatsD refs ((now, fd) # ticks)
     = (fst (detectBeatsD (fst (detectBeatD refs now fd)) ticks),
        snd (detectBeatD refs now fd) # snd (detectBeatsD (fst (detectBeatD refs now fd)) ticks))"
  by (simp add: split_beta Let_def)

lemma length_detectBeatsD: "length (snd (detectBeatsD refs ticks)) = length ticks"
  by (induction ticks arbitrary: refs) (auto simp: split_beta Let_def)

lemma detectBeatsD_warmup:
  "length (beatHistoryRef refs) + length ticks \<le> 9 \<Longrightarrow>
   (\<forall>out \<in> set (snd (detectBeatsD refs ticks)). \<not> beatDetected out) \<and>
   lastBeatTimeRef (fst (detectBeatsD refs ticks)) = lastBeatTimeRef refs \<and>
   beatHistoryRef (fst (detectBeatsD refs ticks))
     = beatHistoryRef refs @ map (\<lambda>t. rawBassEnergyD (snd t)) ticks"
proof (induction ticks arbitrary: refs)
  case Nil
  then show ?case by simp
next
  case (Cons t ticks)
  obtain now fd where t: "t = (now, fd)" by (cases t)
  let ?refs1 = "fst (detectBeatD refs now fd)"
  have l: "length (beatHistoryRef refs) < 9" using Cons.prems by simp
  have nb: "\<not> beatDetected (snd (detectBeatD refs now fd))" by (rule warmup_no_beatD [OF l])
  have h1: "beatHistoryRef ?refs1 = beatHistoryRef refs @ [rawBassEnergyD fd]"
    using l by (simp add: history_after_detectBeatD pushHistory_def Let_def)
  have t1: "lastBeatTimeRef ?refs1 = lastBeatTimeRef refs"
    using nb by (simp add: lastBeatTime_afterD)
  have "length (beatHistoryRef ?refs1) + length ticks \<le> 9"
    using Cons.prems by (simp add: h1)
  from Cons.IH [OF this] nb h1 t1 show ?case
    by (simp add: t detectBeatsD_Cons del: detectBeatsD.simps)
qed

lemma detectBeatsD_snoc:
  "snd (detectBeatsD refs (ticks @ [(now, fd)]))
     = snd (detectBeatsD refs ticks) @ [snd (detectBeatD (fst (detectBeatsD refs ticks)) now fd)]"
proof (induction ticks arbitrary: refs)
  case Nil
  then show ?case by (simp add: split_beta)
next
  case (Cons t ticks)
  obtain now' fd' where t: "t = (now', fd')" by (cases t)
  show ?case using Cons.IH [of "fst (detectBeatD refs now' fd')"]
    by (simp add: t detectBeatsD_Cons del: detectBeatsD.simps)
qed

lemma bassSum_single:
  "bassSum (b # replicate 1023 0) = unat b"
proof -
  have "take 102 (b # replicate 1023 0) = b # replicate 101 0"
    by (simp add: take_Cons')
  then show ?thesis by (simp add: bassSum_take bassRange_div)
qed

lemma rawBassEnergyD_single:
  "rawBassEnergyD (b # replicate 1023 0) = Fin (round64 (real (unat b) / 102))"
  by (simp add: rawBassEnergyD_def bassRange_div bassSum_single)

lemma spec_bassEnergy_raw_single:
  "spec_bassEnergy_raw (b # replicate 1023 0) = real (unat b) / 102"
proof -
  have "take 102 (b # replicate 1023 0) = b # replicate 101 0"
    by (simp add: take_Cons')
  then show ?thesis by (simp add: spec_bassEnergy_raw_def spec_mean_def sum_list_replicate)
qed

lemma round64_17: "round64 (1 / 6) = 6004799503160661 / 36028797018963968"
  by code_simp

lemma round64_27: "round64 (9 / 34) = 4768517252509937 / 18014398509481984"
  by code_simp

lemma tie_threshold:
  "js_lift (\<lambda>a. round64 (a * (3 / 2)))
     (avgBassEnergyD (replicate 9 (Fin (6004799503160661 / 36028797018963968))
        @ [Fin (4768517252509937 / 18014398509481984)]))
   = Fin (1192129313127484 / 4503599627370496)"
  by code_simp


lemma tie_exact:
  "spec_mean (replicate 9 (17 / 102) @ [27 / 102]) * (15 / 10) = (27 / 102 :: real)"
  by (simp add: spec_mean_def sum_list_replicate)

text \<open>
  Claim C5 as stated fails at an exact tie. Nine frames of 1024 bytes with bass sum 17 and
  then one with bass sum 27, all more than 200ms after the last beat: the sample \<open>27/102\<close>
  equals 1.5 times the mean of the ten samples, so it does not exceed it, and yet the
  program reports a beat on the tenth frame, because in binary64 the threshold rounds just
  below the sample.
\<close>

theorem C5_tie_counterexample:
  "beatDetected (last (snd (detectBeatsD initialRefs
     (replicate 9 (1000, 17 # replicate 1023 0) @ [(1000, 27 # replicate 1023 0)])))) \<and>
   \<not> spec_beatDetected
       (map spec_bassEnergy_raw (replicate 9 (17 # replicate 1023 0) @ [27 # replicate 1023 0]))
       (spec_bassEnergy_raw (27 # replicate 1023 0)) 1000 0"
proof -
  let ?f17 = "17 # replicate 1023 (0::byte)"
  let ?f27 = "27 # replicate 1023 (0::byte)"
  let ?warm = "replicate 9 (1000::int, ?f17)"
  let ?refs9 = "fst (detectBeatsD initialRefs ?warm)"
  have w: "length (beatHistoryRef initialRefs) + length ?warm \<le> 9"
    by (simp add: initialRefs_def)
  have h9: "beatHistoryRef ?refs9 = replicate 9 (Fin (6004799503160661 / 36028797018963968))"
    using detectBeatsD_warmup [OF w]
    by (simp add: initialRefs_def rawBassEnergyD_single round64_17)
  have t9: "lastBeatTimeRef ?refs9 = 0"
    using detectBeatsD_warmup [OF w] by (simp add: initialRefs_def)
  have e27: "rawBassEnergyD ?f27 = Fin (4768517252509937 / 18014398509481984)"
    by (simp add: rawBassEnergyD_single round64_27)
  have push: "pushHistory (replicate 9 (Fin (6004799503160661 / 36028797018963968)))
        (Fin (4768517252509937 / 18014398509481984))
      = replicate 9 (Fin (6004799503160661 / 36028797018963968))
        @ [Fin (4768517252509937 / 18014398509481984)]"
    by (simp add: pushHistory_def Let_def)
  have fire: "beatDetected (snd (detectBeatD ?refs9 1000 ?f27))"
    unfolding beat_flagD h9 t9 e27 push tie_threshold by simp
  have "last (snd (detectBeatsD initialRefs (?warm @ [(1000, ?f27)])))
      = snd (detectBeatD ?refs9 1000 ?f27)"
    by (simp only: detectBeatsD_snoc last_snoc)
  with fire have A: "beatDetected (last (snd (detectBeatsD initialRefs (?warm @ [(1000, ?f27)]))))"
    by simp
  have "map spec_bassEnergy_raw (replicate 9 ?f17 @ [?f27]) = replicate 9 (17 / 102) @ [27 / 102]"
    by (simp add: spec_bassEnergy_raw_single)
  then have B: "\<not> spec_beatDetected (map spec_bassEnergy_raw (replicate 9 ?f17 @ [?f27]))
       (spec_bassEnergy_raw ?f27) 1000 0"
    using tie_exact by (simp add: spec_beatDetected_def spec_bassEnergy_raw_single)
  from A B show ?thesis by blast
qed


lemma rawBassEnergyD_spec:
  assumes "length fd \<ge> 10"
  shows "rawBassEnergyD fd = Fin (spec_bassEnergy_rawD fd)"
proof -
  from rawBassEnergy_spec [OF assms]
  have "real (bassSum fd) / real (bassRange fd) = spec_bassEnergy_raw fd"
    using assms by (simp add: rawBassEnergy_def bassRange_div split: if_splits)
  then show ?thesis using assms
    by (simp add: rawBassEnergyD_def spec_bassEnergy_rawD_def bassRange_div)
qed

lemma foldl_js_addD_Fin:
  "foldl js_addD (Fin a) (map Fin h) = Fin (foldl (\<lambda>s x. round64 (s + x)) a h)"
  by (induction h arbitrary: a) simp_all

lemma avgBassEnergyD_spec: "avgBassEnergyD (map Fin h) = Fin (spec_meanD h)"
  by (simp add: avgBassEnergyD_def spec_meanD_def foldl_js_addD_Fin)

lemma beatDetectedD_spec:
  assumes "length fd \<ge> 10" and "beatHistoryRef refs = map Fin h"
  shows "beatDetected (snd (detectBeatD refs now fd)) \<longleftrightarrow>
         spec_beatDetectedD (spec_append_evict h (spec_bassEnergy_rawD fd))
           (spec_bassEnergy_rawD fd) now (lastBeatTimeRef refs)"
  using assms
  by (simp add: beat_flagD rawBassEnergyD_spec pushHistory_spec
      avgBassEnergyD_spec spec_beatDetectedD_def)

lemma threshold_10_16:
  "js_gt (Fin 16) (js_lift (\<lambda>a. round64 (a * (3 / 2)))
     (avgBassEnergyD (pushHistory (replicate 10 (Fin 10)) (Fin 16))))"
  by code_simp

lemma threshold_9_16:
  "js_gt (Fin 16) (js_lift (\<lambda>a. round64 (a * (3 / 2)))
     (avgBassEnergyD (pushHistory (replicate 9 (Fin 10)) (Fin 16))))"
  by code_simp

lemma threshold_10_14:
  "\<not> js_gt (Fin 14) (js_lift (\<lambda>a. round64 (a * (3 / 2)))
     (avgBassEnergyD (pushHistory (replicate 10 (Fin 10)) (Fin 14))))"
  by code_simp

lemma threshold_9_14:
  "\<not> js_gt (Fin 14) (js_lift (\<lambda>a. round64 (a * (3 / 2)))
     (avgBassEnergyD (pushHistory (replicate 9 (Fin 10)) (Fin 14))))"
  by code_simp

lemma example_16D:
  assumes "beatHistoryRef refs = replicate n (Fin 10)" and "n = 9 \<or> n = 10"
    and "now - lastBeatTimeRef refs > 200" and "rawBassEnergyD fd = Fin 16"
  shows "beatDetected (snd (detectBeatD refs now fd))"
  using assms threshold_10_16 threshold_9_16
  by (auto simp add: beat_flagD length_pushHistory)

lemma example_14D:
  assumes "beatHistoryRef refs = replicate n (Fin 10)" and "n = 9 \<or> n = 10"
    and "rawBassEnergyD fd = Fin 14"
  shows "\<not> beatDetected (snd (detectBeatD refs now fd))"
  using assms threshold_10_14 threshold_9_14
  by (auto simp add: beat_flagD)

text \<open>
  Claim C5, amended. For a buffer of at least 10 bytes and a history of finite samples,
  \<open>detectBeatD\<close> reports a beat exactly when the three conditions hold on the numbers as
  the program computes them in binary64: the rounded mean of the first tenth of the buffer
  exceeds the rounded product of 1.5 and the rounded mean of the history after the new
  sample has been appended (summed in order, every addition rounded), more than 200ms have
  passed since the last beat, and the history holds at least 10 samples. With a history of
  ten samples of 10 (or nine, so that the history holds ten after the push) a sample of 16
  fires when the gap is satisfied, and a sample of 14 does not. None of the first 9 calls
  from the initial refs reports a beat, whatever the buffers are.
\<close>

theorem C5_beat_decision_binary64:
  "(length fd \<ge> 10 \<and> beatHistoryRef refs = map Fin h \<longrightarrow>
      (beatDetected (snd (detectBeatD refs now fd)) \<longleftrightarrow>
       spec_beatDetectedD (spec_append_evict h (spec_bassEnergy_rawD fd))
         (spec_bassEnergy_rawD fd) now (lastBeatTimeRef refs))) \<and>
   (beatHistoryRef refs' = replicate n (Fin 10) \<and> (n = 9 \<or> n = 10) \<longrightarrow>
      (rawBassEnergyD spike = Fin 16 \<and> now' - lastBeatTimeRef refs' > 200 \<longrightarrow>
         beatDetected (snd (detectBeatD refs' now' spike))) \<and>
      (rawBassEnergyD quiet = Fin 14 \<longrightarrow>
         \<not> beatDetected (snd (detectBeatD refs' now' quiet)))) \<and>
   (length ticks \<le> 9 \<and> k < length ticks \<longrightarrow>
      \<not> beatDetected (snd (detectBeatsD initialRefs ticks) ! k))"
proof (intro conjI impI)
  assume "length fd \<ge> 10 \<and> beatHistoryRef refs = map Fin h"
  then show "beatDetected (snd (detectBeatD refs now fd)) \<longleftrightarrow>
       spec_beatDetectedD (spec_append_evict h (spec_bassEnergy_rawD fd))
         (spec_bassEnergy_rawD fd) now (lastBeatTimeRef refs)"
    using beatDetectedD_spec by blast
next
  assume "beatHistoryRef refs' = replicate n (Fin 10) \<and> (n = 9 \<or> n = 10)"
    and "rawBassEnergyD spike = Fin 16 \<and> now' - lastBeatTimeRef refs' > 200"
  then show "beatDetected (snd (detectBeatD refs' now' spike))"
    using example_16D by blast
next
  assume "beatHistoryRef refs' = replicate n (Fin 10) \<and> (n = 9 \<or> n = 10)"
    and "rawBassEnergyD quiet = Fin 14"
  then show "\<not> beatDetected (snd (detectBeatD refs' now' quiet))"
    using example_14D by blast
next
  assume a: "length ticks \<le> 9 \<and> k < length ticks"
  then have "snd (detectBeatsD initialRefs ticks) ! k \<in> set (snd (detectBeatsD initialRefs ticks))"
    by (simp add: length_detectBeatsD)
  moreover have "length (beatHistoryRef initialRefs) + length ticks \<le> 9"
    using a by (simp add: initialRefs_def)
  ultimately show "\<not> beatDetected (snd (detectBeatsD initialRefs ticks) ! k)"
    using detectBeatsD_warmup by blast
qed

lemma round64_16: "round64 16 = 16"
  by code_simp

lemma round64_14: "round64 14 = 14"
  by code_simp

text \<open>The hypotheses of C5 hold together at a history of ten 10s, buffers of ten bytes 16
  and 14, time 1000 after a last beat at 0, and nine ticks of saturated buffers.\<close>

theorem C5_beat_decision_binary64_witness:
  "length (replicate 10 (16::byte)) \<ge> 10 \<and>
   rawBassEnergyD (replicate 10 16) = Fin 16 \<and>
   rawBassEnergyD (replicate 10 14) = Fin 14 \<and>
   (1000::int) - 0 > 200 \<and>
   length (replicate 9 (1000::int, replicate 10 (255::byte))) \<le> 9 \<and>
   8 < length (replicate 9 (1000::int, replicate 10 (255::byte))) \<and>
   spec_beatDetectedD (spec_append_evict (replicate 10 10) (spec_bassEnergy_rawD (replicate 10 16)))
         (spec_bassEnergy_rawD (replicate 10 16)) 1000 0 \<and>
   beatDetected (snd (detectBeatD \<lparr>beatHistoryRef = replicate 10 (Fin 10), lastBeatTimeRef = 0\<rparr>
      1000 (replicate 10 16))) \<and>
   \<not> beatDetected (snd (detectBeatD \<lparr>beatHistoryRef = replicate 10 (Fin 10), lastBeatTimeRef = 0\<rparr>
      1000 (replicate 10 14))) \<and>
   \<not> beatDetected (snd (detectBeatsD initialRefs (replicate 9 (1000, replicate 10 255))) ! 8)"
proof -
  have e16: "rawBassEnergyD (replicate 10 16) = Fin 16"
    by (simp add: rawBassEnergyD_def bassRange_div bassSum_def round64_16)
  have e14: "rawBassEnergyD (replicate 10 14) = Fin 14"
    by (simp add: rawBassEnergyD_def bassRange_div bassSum_def round64_14)
  have hist: "beatHistoryRef \<lparr>beatHistoryRef = replicate 10 (Fin 10), lastBeatTimeRef = 0\<rparr>
      = map Fin (replicate 10 10)" by simp
  note inst = C5_beat_decision_binary64 [where fd = "replicate 10 16" and h = "replicate 10 10"
      and refs = "\<lparr>beatHistoryRef = replicate 10 (Fin 10), lastBeatTimeRef = 0\<rparr>"
      and refs' = "\<lparr>beatHistoryRef = replicate 10 (Fin 10), lastBeatTimeRef = 0\<rparr>"
      and n = 10 and now = 1000 and now' = 1000
      and spike = "replicate 10 16" and quiet = "replicate 10 14"
      and ticks = "replicate 9 (1000, replicate 10 255)" and k = 8]
  show ?thesis using inst e16 e14 hist by auto
qed

lemma lastBeatTime_after:
  "lastBeatTimeRef (fst (detectBeat refs now fd))
     = (if beatDetected (snd (detectBeat refs now fd)) then now else lastBeatTimeRef refs)"
  by (simp add: detectBeat_def Let_def)

lemma beat_needs_gap:
  "beatDetected (snd (detectBeat refs now fd)) \<Longrightarrow> now - lastBeatTimeRef refs > 200"
  by (simp add: detectBeat_def Let_def)

lemma detectBeats_Cons:
  "detectBeats refs ((now, fd) # ticks)
     = (fst (detectBeats (fst (detectBeat refs now fd)) ticks),
        snd (detectBeat refs now fd) # snd (detectBeats (fst (detectBeat refs now fd)) ticks))"
  by (simp add: split_beta Let_def)

lemma later_beat_after_last:
  "j < length ticks \<Longrightarrow> beatDetected (snd (detectBeats refs ticks) ! j) \<Longrightarrow>
   fst (ticks ! j) - lastBeatTimeRef refs > 200"
proof (induction ticks arbitrary: refs j)
  case Nil
  then show ?case by simp
next
  case (Cons t ticks)
  obtain now fd where t: "t = (now, fd)" by (cases t)
  let ?refs1 = "fst (detectBeat refs now fd)"
  show ?case
  proof (cases j)
    case 0
    with Cons.prems show ?thesis
      by (simp add: t detectBeats_Cons beat_needs_gap del: detectBeats.simps)
  next
    case (Suc j')
    with Cons.prems have "j' < length ticks"
      and "beatDetected (snd (detectBeats ?refs1 ticks) ! j')"
      by (simp_all add: t detectBeats_Cons del: detectBeats.simps)
    from Cons.IH [OF this] have "fst (ticks ! j') - lastBeatTimeRef ?refs1 > 200" .
    moreover have "lastBeatTimeRef refs \<le> lastBeatTimeRef ?refs1"
      using beat_needs_gap [of refs now fd] by (auto simp: lastBeatTime_after)
    ultimately show ?thesis by (simp add: Suc)
  qed
qed

lemma beats_apart:
  "i < j \<Longrightarrow> j < length ticks \<Longrightarrow>
   beatDetected (snd (detectBeats refs ticks) ! i) \<Longrightarrow>
   beatDetected (snd (detectBeats refs ticks) ! j) \<Longrightarrow>
   fst (ticks ! j) - fst (ticks ! i) > 200"
proof (induction ticks arbitrary: refs i j)
  case Nil
  then show ?case by simp
next
  case (Cons t ticks)
  obtain now fd where t: "t = (now, fd)" by (cases t)
  let ?refs1 = "fst (detectBeat refs now fd)"
  from Cons.prems(1) obtain j' where j: "j = Suc j'" by (cases j) simp_all
  with Cons.prems have j': "j' < length ticks"
    and bj: "beatDetected (snd (detectBeats ?refs1 ticks) ! j')"
    by (simp_all add: t detectBeats_Cons del: detectBeats.simps)
  show ?case
  proof (cases i)
    case 0
    with Cons.prems(3) have "beatDetected (snd (detectBeat refs now fd))"
      by (simp add: t detectBeats_Cons del: detectBeats.simps)
    then have "lastBeatTimeRef ?refs1 = now" by (simp add: lastBeatTime_after)
    with later_beat_after_last [OF j' bj] show ?thesis by (simp add: 0 j t)
  next
    case (Suc i')
    with Cons.prems j have "i' < j'"
      and "beatDetected (snd (detectBeats ?refs1 ticks) ! i')"
      by (simp_all add: t detectBeats_Cons del: detectBeats.simps)
    from Cons.IH [OF this(1) j' this(2) bj] show ?thesis by (simp add: Suc j)
  qed
qed

text \<open>
  Claim C6. \<open>lastBeatTimeRef\<close> changes only on a call that reports a beat, and then becomes
  the time of that call. Hence a call at most 200ms after a call that reported a beat reports
  none, and over any sequence of calls two calls that both report a beat are more than 200ms
  apart.
\<close>

theorem C6_min_gap:
  "lastBeatTimeRef (fst (detectBeat refs now fd))
     = (if beatDetected (snd (detectBeat refs now fd)) then now else lastBeatTimeRef refs) \<and>
   (beatDetected (snd (detectBeat refs now fd)) \<and> now2 - now \<le> 200 \<longrightarrow>
      \<not> beatDetected (snd (detectBeat (fst (detectBeat refs now fd)) now2 fd2))) \<and>
   (i < j \<and> j < length ticks \<and>
    beatDetected (snd (detectBeats refs0 ticks) ! i) \<and>
    beatDetected (snd (detectBeats refs0 ticks) ! j) \<longrightarrow>
      fst (ticks ! j) - fst (ticks ! i) > 200)"
proof (intro conjI impI)
  show "lastBeatTimeRef (fst (detectBeat refs now fd))
     = (if beatDetected (snd (detectBeat refs now fd)) then now else lastBeatTimeRef refs)"
    by (rule lastBeatTime_after)
next
  assume a: "beatDetected (snd (detectBeat refs now fd)) \<and> now2 - now \<le> 200"
  then have "lastBeatTimeRef (fst (detectBeat refs now fd)) = now"
    by (simp add: lastBeatTime_after)
  with a beat_needs_gap [of "fst (detectBeat refs now fd)" now2 fd2]
  show "\<not> beatDetected (snd (detectBeat (fst (detectBeat refs now fd)) now2 fd2))"
    by auto
next
  assume "i < j \<and> j < length ticks \<and>
    beatDetected (snd (detectBeats refs0 ticks) ! i) \<and>
    beatDetected (snd (detectBeats refs0 ticks) ! j)"
  then show "fst (ticks ! j) - fst (ticks ! i) > 200"
    using beats_apart by blast
qed


text \<open>A beat at time 1000 suppresses a saturated spike at time 1100; a spike at time 1300
  fires again.\<close>

theorem C6_min_gap_witness:
  "beatDetected (snd (detectBeat \<lparr>beatHistoryRef = replicate 10 (Fin 10), lastBeatTimeRef = 0\<rparr>
      1000 (replicate 10 16))) \<and>
   (1100::int) - 1000 \<le> 200 \<and>
   \<not> beatDetected (snd (detectBeat
      (fst (detectBeat \<lparr>beatHistoryRef = replicate 10 (Fin 10), lastBeatTimeRef = 0\<rparr>
         1000 (replicate 10 16))) 1100 (replicate 10 255))) \<and>
   beatDetected (snd (detectBeats \<lparr>beatHistoryRef = replicate 10 (Fin 10), lastBeatTimeRef = 0\<rparr>
      [(1000, replicate 10 16), (1300, replicate 10 255)]) ! 0) \<and>
   beatDetected (snd (detectBeats \<lparr>beatHistoryRef = replicate 10 (Fin 10), lastBeatTimeRef = 0\<rparr>
      [(1000, replicate 10 16), (1300, replicate 10 255)]) ! 1) \<and>
   fst ([(1000::int, replicate 10 (16::byte)), (1300, replicate 10 255)] ! 1)
     - fst ([(1000::int, replicate 10 (16::byte)), (1300, replicate 10 255)] ! 0) > 200"
proof -
  let ?refs = "\<lparr>beatHistoryRef = replicate 10 (Fin 10), lastBeatTimeRef = 0\<rparr>"
  have e16: "rawBassEnergy (replicate 10 16) = Fin 16"
    by (simp add: rawBassEnergy_def bassRange_div bassSum_def)
  have e255: "rawBassEnergy (replicate 10 255) = Fin 255"
    by (simp add: rawBassEnergy_def bassRange_div bassSum_def)
  have h0: "beatDetected (snd (detectBeat ?refs 1000 (replicate 10 16)))"
    using example_16 [of ?refs 10 1000 "replicate 10 16"] e16 by simp
  let ?refs1 = "fst (detectBeat ?refs 1000 (replicate 10 16))"
  have hist1: "beatHistoryRef ?refs1 = map Fin (replicate 10 10 @ [16])"
    by (simp add: history_after_detectBeat e16 pushHistory_def)
  have last1: "lastBeatTimeRef ?refs1 = 1000"
    using h0 by (simp add: lastBeatTime_after)
  have b2: "beatDetected (snd (detectBeat ?refs1 1300 (replicate 10 255)))"
    by (simp add: detectBeat_def [of ?refs1] Let_def hist1 last1 e255 pushHistory_spec
        avgBassEnergy_spec spec_append_evict_def spec_mean_def sum_list_replicate
        del: map_append map_replicate)
  have h1: "beatDetected (snd (detectBeats ?refs
      [(1000, replicate 10 16), (1300, replicate 10 255)]) ! 0)"
    using h0 by (simp add: detectBeats_Cons del: detectBeats.simps)
  have h2: "beatDetected (snd (detectBeats ?refs
      [(1000, replicate 10 16), (1300, replicate 10 255)]) ! 1)"
    using b2 by (simp add: detectBeats_Cons del: detectBeats.simps(2))
  from C6_min_gap [where refs = ?refs and now = 1000 and fd = "replicate 10 16"
      and ?now2.0 = 1100 and ?fd2.0 = "replicate 10 255" and i = 0 and j = 1
      and ?refs0.0 = ?refs
      and ticks = "[(1000, replicate 10 16), (1300, replicate 10 255)]"]
  show ?thesis using h0 h1 h2 by simp
qed

text \<open>
  Claim C3 as stated fails: \<open>detectBeat\<close> validates nothing. On the empty buffer (a buffer of
  the wrong length) from the initial refs the history does not stay as it was: the sample
  \<open>NaN\<close> is pushed.
\<close>

theorem C3_history_changed_counterexample:
  "beatHistoryRef (fst (detectBeat initialRefs 1000 [])) \<noteq> beatHistoryRef initialRefs \<and>
   beatHistoryRef (fst (detectBeat initialRefs 1000 [])) = [NaN]"
  by (simp add: detectBeat_def Let_def initialRefs_def pushHistory_def rawBassEnergy_def
      bassRange_div)

lemma last_pushHistory: "last (pushHistory h e) = e"
proof (cases h)
  case Nil
  then show ?thesis by (simp add: pushHistory_def Let_def)
next
  case (Cons a as)
  then show ?thesis by (simp add: pushHistory_def Let_def)
qed

text \<open>
  Claim C3, amended. \<open>detectBeat\<close> is total (it has no raising path: every indexed read is
  inside the buffer) and skips no tick: for every buffer, of whatever length, it pushes the
  sample of that tick onto the history (evicting the oldest beyond 20) and returns the state
  computed from that buffer. For a buffer of fewer than 10 bytes the sample pushed and the
  bass energy returned are \<open>NaN\<close>, no beat is reported and the last beat time is kept.
\<close>

theorem C3_no_tick_skipped:
  "length (beatHistoryRef (fst (detectBeat refs now fd)))
     = (if length (beatHistoryRef refs) < 20 then Suc (length (beatHistoryRef refs))
        else length (beatHistoryRef refs)) \<and>
   last (beatHistoryRef (fst (detectBeat refs now fd))) = rawBassEnergy fd \<and>
   bassEnergy (snd (detectBeat refs now fd)) = js_lift (\<lambda>e. e / 255) (rawBassEnergy fd) \<and>
   (length fd < 10 \<longrightarrow>
      last (beatHistoryRef (fst (detectBeat refs now fd))) = NaN \<and>
      snd (detectBeat refs now fd) = \<lparr>beatDetected = False, bassEnergy = NaN\<rparr> \<and>
      lastBeatTimeRef (fst (detectBeat refs now fd)) = lastBeatTimeRef refs)"
proof -
  have short: "rawBassEnergy fd = NaN" if "length fd < 10"
    using that by (simp add: rawBassEnergy_def bassRange_div)
  show ?thesis
    by (simp add: history_after_detectBeat length_pushHistory last_pushHistory short)
       (simp add: detectBeat_def Let_def short)
qed

text \<open>The empty buffer is shorter than 10 bytes.\<close>

theorem C3_no_tick_skipped_witness:
  "length ([] :: Uint8Array) < 10 \<and>
   last (beatHistoryRef (fst (detectBeat initialRefs 1000 []))) = NaN \<and>
   snd (detectBeat initialRefs 1000 []) = \<lparr>beatDetected = False, bassEnergy = NaN\<rparr> \<and>
   lastBeatTimeRef (fst (detectBeat initialRefs 1000 [])) = lastBeatTimeRef initialRefs"
  using C3_no_tick_skipped [of initialRefs 1000 "[]"]
  by (simp add: rawBassEnergy_def bassRange_div)

text \<open>
  Claim C9 as stated fails for non-empty buffers of fewer than 10 bytes: for the one-byte
  buffer \<open>[255]\<close> the bass range is empty, the quotient is \<open>0 / 0\<close> and the bass energy
  returned is \<open>NaN\<close>, which is not in \<open>[0,1]\<close>.
\<close>

theorem C9_short_buffer_counterexample:
  "[255 :: byte] \<noteq> [] \<and> bassRange [255] = 0 \<and>
   bassEnergy (snd (detectBeat initialRefs 1000 [255])) = NaN \<and>
   \<not> (\<exists>e. bassEnergy (snd (detectBeat initialRefs 1000 [255])) = Fin e \<and> 0 \<le> e \<and> e \<le> 1)"
  by (simp add: detectBeat_def Let_def rawBassEnergy_def bassRange_div)

text \<open>
  Claim C9, amended. For every frequency buffer of at least 10 bytes the bass range is not
  empty, so the mean divides by a positive count, and the bass energy returned by
  \<open>detectBeat\<close> is a finite number in \<open>[0,1]\<close>.
\<close>

theorem C9_bassEnergy_in_unit_interval:
  "length fd \<ge> 10 \<Longrightarrow>
   bassRange fd > 0 \<and>
   (\<exists>e. bassEnergy (snd (detectBeat refs now fd)) = Fin e \<and> 0 \<le> e \<and> e \<le> 1)"
proof -
  assume l: "length fd \<ge> 10"
  then have r: "bassRange fd > 0" by (simp add: bassRange_div)
  let ?e = "real (bassSum fd) / real (bassRange fd) / 255"
  have "real (bassSum fd) \<le> 255 * real (bassRange fd)"
    using bassSum_le [of fd] by (metis of_nat_le_iff of_nat_mult of_nat_numeral)
  then have "?e \<le> 1" using r by (simp add: divide_le_eq)
  moreover have "0 \<le> ?e" by simp
  moreover have "bassEnergy (snd (detectBeat refs now fd)) = Fin ?e"
    using r by (simp add: detectBeat_def Let_def rawBassEnergy_def)
  ultimately show ?thesis using r by blast
qed

text \<open>A buffer of ten saturated bytes.\<close>

theorem C9_bassEnergy_in_unit_interval_witness:
  "length (replicate 10 (255::byte)) \<ge> 10 \<and> bassRange (replicate 10 (255::byte)) > 0 \<and>
   (\<exists>e. bassEnergy (snd (detectBeat initialRefs 1000 (replicate 10 255))) = Fin e \<and>
        0 \<le> e \<and> e \<le> 1)"
  using C9_bassEnergy_in_unit_interval [of "replicate 10 255" initialRefs 1000] by simp

section \<open>Properties of the canvas renderer\<close>

lemma drawBar_calls:
  "drawBar fd cw ch beat i ctx
     = ctx\<lparr>globalAlpha := 1, drawn := drawn ctx @ barCalls fd cw ch beat (globalAlpha ctx) i\<rparr>"
  by (simp add: drawBar_def barCalls_def fillRect_def Let_def)

lemma fold_drawBar:
  "fold (drawBar fd cw ch beat) (i # rest) ctx
     = ctx\<lparr>globalAlpha := 1,
           drawn := drawn ctx @ barCalls fd cw ch beat (globalAlpha ctx) i
                    @ concat (map (barCalls fd cw ch beat 1) rest)\<rparr>"
proof (induction rest arbitrary: i ctx)
  case Nil
  then show ?case by (simp add: drawBar_calls)
next
  case (Cons j rest)
  have step: "fold (drawBar fd cw ch beat) (i # j # rest) ctx
      = fold (drawBar fd cw ch beat) (j # rest) (drawBar fd cw ch beat i ctx)" by simp
  show ?case unfolding step Cons.IH by (simp add: drawBar_calls)
qed

lemma drawBarSpectrum_calls:
  "drawBarSpectrum ctx fd cw ch beat
     = (if nat \<lceil>barCount fd\<rceil> = 0 then ctx
        else ctx\<lparr>globalAlpha := 1,
                 drawn := drawn ctx @ concat (map (\<lambda>i. barCalls fd cw ch beat
                            (if i = 0 then globalAlpha ctx else 1) i) [0..<nat \<lceil>barCount fd\<rceil>])\<rparr>)"
proof (cases "nat \<lceil>barCount fd\<rceil>")
  case 0
  then show ?thesis by (simp add: drawBarSpectrum_def)
next
  case (Suc n)
  let ?F = "drawBar fd cw ch beat"
  let ?G = "\<lambda>i. barCalls fd cw ch beat (if i = 0 then globalAlpha ctx else 1) i"
  have u: "[0..<Suc n] = 0 # [Suc 0..<Suc n]" by (simp add: upt_rec)
  have m: "map ?G [Suc 0..<Suc n] = map (barCalls fd cw ch beat 1) [Suc 0..<Suc n]"
    by (rule map_cong) (auto simp del: upt_Suc)
  have "concat (map ?G [0..<Suc n]) = concat (map ?G (0 # [Suc 0..<Suc n]))"
    by (simp only: u)
  also have "\<dots> = ?G 0 @ concat (map ?G [Suc 0..<Suc n])"
    by (simp only: list.map concat.simps)
  also have "\<dots> = ?G 0 @ concat (map (barCalls fd cw ch beat 1) [Suc 0..<Suc n])"
    by (simp only: m)
  finally have c: "concat (map ?G [0..<Suc n])
      = barCalls fd cw ch beat (globalAlpha ctx) 0
        @ concat (map (barCalls fd cw ch beat 1) [Suc 0..<Suc n])"
    by simp
  have "drawBarSpectrum ctx fd cw ch beat = fold ?F (0 # [Suc 0..<Suc n]) ctx"
    unfolding drawBarSpectrum_def Suc u ..
  also have "\<dots> = ctx\<lparr>globalAlpha := 1,
       drawn := drawn ctx @ barCalls fd cw ch beat (globalAlpha ctx) 0
                @ concat (map (barCalls fd cw ch beat 1) [Suc 0..<Suc n])\<rparr>"
    by (rule fold_drawBar)
  finally show ?thesis unfolding Suc c by simp
qed

lemma renderMode_bars:
  "opacity < 1 \<Longrightarrow>
   renderMode ctx Bars audioData opacity
     = Inr (ctx\<lparr>globalAlpha := 1,
               drawn := drawn ctx @ concat (map (\<lambda>i. barCalls (frequencyData audioData)
                   (canvasWidth ctx) (canvasHeight ctx) (beatDetected audioData)
                   (if i = 0 then opacity else 1) i) [0..<nat \<lceil>barCount (frequencyData audioData)\<rceil>])\<rparr>)"
  by (simp add: renderMode_def Let_def bindE_def drawBarSpectrum_calls cong: if_cong)


lemma length_barCalls: "length (barCalls fd cw ch beat a i) = 2"
  by (simp add: barCalls_def Let_def)

lemma alphaOf_barCalls:
  "alphaOf (barCalls fd cw ch beat a i ! 0) = a"
  "alphaOf (barCalls fd cw ch beat a i ! Suc 0) = 2 / 10"
  by (simp_all add: barCalls_def Let_def)

lemma concat_pairs_nth:
  assumes "\<And>i. length (G i) = 2" and "i < n" and "k < 2"
  shows "concat (map G [0..<n]) ! (2 * i + k) = G i ! k"
  using assms(2)
proof (induction n)
  case 0
  then show ?case by simp
next
  case (Suc n)
  have len: "length (concat (map G [0..<n])) = 2 * n"
    by (induction n) (simp_all add: assms(1))
  show ?case
  proof (cases "i < n")
    case True
    with Suc.IH have "concat (map G [0..<n]) ! (2 * i + k) = G i ! k" by simp
    moreover have "2 * i + k < 2 * n" using True assms(3) by simp
    ultimately show ?thesis by (simp add: nth_append len)
  next
    case False
    with Suc.prems have "i = n" by simp
    then show ?thesis using assms(3) by (simp add: nth_append len)
  qed
qed

lemma concat_bars_split:
  "concat (map (\<lambda>i. barCalls fd cw ch beat (if i = 0 then a else 1) i) [0..<Suc m])
   = barCalls fd cw ch beat a 0 @ concat (map (barCalls fd cw ch beat 1) [Suc 0..<Suc m])"
proof -
  let ?G = "\<lambda>i. barCalls fd cw ch beat (if i = 0 then a else 1) i"
  have u: "[0..<Suc m] = 0 # [Suc 0..<Suc m]" by (simp add: upt_rec)
  have m: "map ?G [Suc 0..<Suc m] = map (barCalls fd cw ch beat 1) [Suc 0..<Suc m]"
    by (rule map_cong) (auto simp del: upt_Suc)
  have "concat (map ?G [0..<Suc m]) = concat (map ?G (0 # [Suc 0..<Suc m]))"
    by (simp only: u)
  also have "\<dots> = ?G 0 @ concat (map ?G [Suc 0..<Suc m])"
    by (simp only: list.map concat.simps)
  also have "\<dots> = ?G 0 @ concat (map (barCalls fd cw ch beat 1) [Suc 0..<Suc m])"
    by (simp only: m)
  finally show ?thesis by simp
qed

lemma drop_first_bar:
  "drop (Suc 0) (concat (map (\<lambda>i. barCalls fd cw ch beat (if i = 0 then a else 1) i) [0..<n]))
   = drop (Suc 0) (concat (map (\<lambda>i. barCalls fd cw ch beat (if i = 0 then b else 1) i) [0..<n]))"
proof (cases n)
  case 0
  then show ?thesis by simp
next
  case (Suc m)
  have "drop (Suc 0) (barCalls fd cw ch beat a 0) = drop (Suc 0) (barCalls fd cw ch beat b 0)"
    by (simp add: barCalls_def Let_def)
  then show ?thesis unfolding Suc concat_bars_split
    by (simp add: length_barCalls del: upt_Suc)
qed

lemma renderMode_bars_full:
  "renderMode (ctx\<lparr>globalAlpha := 1\<rparr>) Bars audioData 1
     = Inr (ctx\<lparr>globalAlpha := 1,
               drawn := drawn ctx @ concat (map (\<lambda>i. barCalls (frequencyData audioData)
                   (canvasWidth ctx) (canvasHeight ctx) (beatDetected audioData)
                   (if i = 0 then 1 else 1) i)
                   [0..<nat \<lceil>barCount (frequencyData audioData)\<rceil>])\<rparr>)"
  by (simp add: renderMode_def Let_def bindE_def drawBarSpectrum_calls cong: if_cong)

text \<open>
  Claim C10. When \<open>renderMode\<close> is called with an opacity below 1 for the bars mode, the
  call succeeds, the first bar is drawn at the requested opacity, and because \<open>drawBar\<close>
  sets \<open>globalAlpha\<close> to 1 after each reflection every later bar is drawn at alpha 1 (each
  reflection at its own 0.2): after the first \<open>fillRect\<close> the drawing calls are those of a
  call at full opacity. \<open>globalAlpha\<close> is 1 when the call returns.
\<close>

theorem C10_bars_ignore_opacity:
  "opacity < 1 \<longrightarrow>
   (\<exists>ctx'. renderMode ctx Bars audioData opacity = Inr ctx' \<and>
      globalAlpha ctx' = 1 \<and>
      drawn ctx' = drawn ctx @ concat (map (\<lambda>i. barCalls (frequencyData audioData)
          (canvasWidth ctx) (canvasHeight ctx) (beatDetected audioData)
          (if i = 0 then opacity else 1) i) [0..<nat \<lceil>barCount (frequencyData audioData)\<rceil>]) \<and>
      (\<forall>i. i < nat \<lceil>barCount (frequencyData audioData)\<rceil> \<longrightarrow>
         alphaOf (drawn ctx' ! (length (drawn ctx) + 2 * i)) = (if i = 0 then opacity else 1) \<and>
         alphaOf (drawn ctx' ! (length (drawn ctx) + 2 * i + 1)) = 2 / 10) \<and>
      (\<exists>full. renderMode (ctx\<lparr>globalAlpha := 1\<rparr>) Bars audioData 1 = Inr full \<and>
         drop (Suc (length (drawn ctx))) (drawn ctx')
           = drop (Suc (length (drawn ctx))) (drawn full)))"
proof
  assume op: "opacity < 1"
  let ?n = "nat \<lceil>barCount (frequencyData audioData)\<rceil>"
  let ?G = "\<lambda>a i. barCalls (frequencyData audioData)
          (canvasWidth ctx) (canvasHeight ctx) (beatDetected audioData)
          (if i = 0 then a else 1) i"
  let ?ctx' = "ctx\<lparr>globalAlpha := 1, drawn := drawn ctx @ concat (map (?G opacity) [0..<?n])\<rparr>"
  let ?full = "ctx\<lparr>globalAlpha := 1, drawn := drawn ctx @ concat (map (?G 1) [0..<?n])\<rparr>"
  have r: "renderMode ctx Bars audioData opacity = Inr ?ctx'"
    using op by (rule renderMode_bars)
  have f: "renderMode (ctx\<lparr>globalAlpha := 1\<rparr>) Bars audioData 1 = Inr ?full"
    by (rule renderMode_bars_full)
  have same: "drop (Suc (length (drawn ctx))) (drawn ?ctx')
      = drop (Suc (length (drawn ctx))) (drawn ?full)"
    using drop_first_bar [of "frequencyData audioData" "canvasWidth ctx" "canvasHeight ctx"
        "beatDetected audioData" opacity ?n 1]
    by simp
  have nth: "alphaOf (drawn ?ctx' ! (length (drawn ctx) + 2 * i)) = (if i = 0 then opacity else 1) \<and>
         alphaOf (drawn ?ctx' ! (length (drawn ctx) + 2 * i + 1)) = 2 / 10" if "i < ?n" for i
  proof -
    have a: "concat (map (?G opacity) [0..<?n]) ! (2 * i + 0) = ?G opacity i ! 0"
      by (rule concat_pairs_nth) (simp_all add: length_barCalls that)
    have b: "concat (map (?G opacity) [0..<?n]) ! (2 * i + 1) = ?G opacity i ! 1"
      by (rule concat_pairs_nth) (simp_all add: length_barCalls that)
    have "drawn ?ctx' ! (length (drawn ctx) + 2 * i) = ?G opacity i ! 0"
      using a by (simp add: nth_append)
    moreover have "drawn ?ctx' ! (length (drawn ctx) + 2 * i + 1) = ?G opacity i ! 1"
      using b by (simp add: nth_append add.assoc)
    ultimately show ?thesis by (simp add: alphaOf_barCalls)
  qed
  have "renderMode ctx Bars audioData opacity = Inr ?ctx' \<and>
      globalAlpha ?ctx' = 1 \<and>
      drawn ?ctx' = drawn ctx @ concat (map (?G opacity) [0..<?n]) \<and>
      (\<forall>i. i < ?n \<longrightarrow>
         alphaOf (drawn ?ctx' ! (length (drawn ctx) + 2 * i)) = (if i = 0 then opacity else 1) \<and>
         alphaOf (drawn ?ctx' ! (length (drawn ctx) + 2 * i + 1)) = 2 / 10) \<and>
      (\<exists>full. renderMode (ctx\<lparr>globalAlpha := 1\<rparr>) Bars audioData 1 = Inr full \<and>
         drop (Suc (length (drawn ctx))) (drawn ?ctx')
           = drop (Suc (length (drawn ctx))) (drawn full))"
    using r f same nth by (intro conjI exI [of _ ?full] allI impI) simp_all
  then show "\<exists>ctx'. renderMode ctx Bars audioData opacity = Inr ctx' \<and>
      globalAlpha ctx' = 1 \<and>
      drawn ctx' = drawn ctx @ concat (map (?G opacity) [0..<?n]) \<and>
      (\<forall>i. i < ?n \<longrightarrow>
         alphaOf (drawn ctx' ! (length (drawn ctx) + 2 * i)) = (if i = 0 then opacity else 1) \<and>
         alphaOf (drawn ctx' ! (length (drawn ctx) + 2 * i + 1)) = 2 / 10) \<and>
      (\<exists>full. renderMode (ctx\<lparr>globalAlpha := 1\<rparr>) Bars audioData 1 = Inr full \<and>
         drop (Suc (length (drawn ctx))) (drawn ctx')
           = drop (Suc (length (drawn ctx))) (drawn full))"
    by (rule exI [of _ ?ctx'])
qed

text \<open>A buffer of 8 bytes gives two bars; at opacity 1/2 the alphas of the four calls are
  1/2, 0.2, 1, 0.2.\<close>

theorem C10_bars_ignore_opacity_witness:
  "(1 / 2 :: real) < 1 \<and>
   (1 :: nat) < nat \<lceil>barCount (replicate 8 255)\<rceil> \<and>
   (\<exists>ctx'. renderMode
        \<lparr>canvasWidth = 800, canvasHeight = 400, globalAlpha = 1, drawn = [],
          spectrogramDataRef = None\<rparr> Bars
        \<lparr>beatDetected = False, bassEnergy = Fin 0, frequencyData = replicate 8 255,
          timeData = [], dataArray = replicate 8 255\<rparr> (1 / 2) = Inr ctx' \<and>
      globalAlpha ctx' = 1 \<and>
      alphaOf (drawn ctx' ! 0) = 1 / 2 \<and>
      alphaOf (drawn ctx' ! 2) = 1 \<and>
      alphaOf (drawn ctx' ! 3) = 2 / 10)"
proof -
  let ?ctx = "\<lparr>canvasWidth = 800, canvasHeight = 400, globalAlpha = 1, drawn = [],
          spectrogramDataRef = None\<rparr>"
  let ?ad = "\<lparr>beatDetected = False, bassEnergy = Fin 0, frequencyData = replicate 8 255,
          timeData = [], dataArray = replicate 8 255\<rparr>"
  have n: "nat \<lceil>barCount (replicate 8 255)\<rceil> = 2"
    by (simp add: barCount_def)
  from C10_bars_ignore_opacity [of "1 / 2" ?ctx ?ad]
  obtain ctx' where r: "renderMode ?ctx Bars ?ad (1 / 2) = Inr ctx'"
    and g: "globalAlpha ctx' = 1"
    and a: "\<forall>i. i < 2 \<longrightarrow>
         alphaOf (drawn ctx' ! (2 * i)) = (if i = 0 then 1 / 2 else 1) \<and>
         alphaOf (drawn ctx' ! (2 * i + 1)) = 2 / 10"
    by (auto simp: n)
  from a have "alphaOf (drawn ctx' ! (2 * 0)) = 1 / 2" by (metis pos2)
  moreover from a have "alphaOf (drawn ctx' ! (2 * 1)) = 1 \<and> alphaOf (drawn ctx' ! (2 * 1 + 1)) = 2 / 10"
    by (metis one_less_numeral_iff semiring_norm(76) zero_neq_one)
  ultimately show ?thesis using r g n by auto
qed
























lemma bindE_Inr: "bindE (Inr x) f = f x"
  by (simp add: bindE_def)

text \<open>
  Claim C1 does not hold of the code: the mode-change effect stores the new mode in
  \<open>previousMode\<close>, so after every mode change \<open>previousMode\<close> equals the new mode and the
  mode shown before is no longer recorded. After a change from bars to waveform the first
  tick draws waveform at opacity 1 and the next tick draws waveform at 0.95 and waveform at
  0.05: bars, the outgoing mode, is not drawn at alpha \<open>1 - progress\<close>.
\<close>

theorem C1_previous_mode_overwritten:
  "previousMode (onModeChange newMode st) = newMode \<and>
   onModeChange Waveform (initialState Bars)
     = \<lparr>mode = Waveform, previousMode = Waveform, isTransitioning = True,
        transitionProgress = 0\<rparr> \<and>
   render \<lparr>mode = Waveform, previousMode = Waveform, isTransitioning = True,
        transitionProgress = 0\<rparr> ctx (Some a)
     = bindE (renderMode (fillRect ctx 0 0 (real (canvasWidth ctx)) (real (canvasHeight ctx)))
          Waveform a 1)
         (\<lambda>ctx1. Inr (\<lparr>mode = Waveform, previousMode = Waveform, isTransitioning = True,
             transitionProgress = 5 / 100\<rparr>, ctx1)) \<and>
   render \<lparr>mode = Waveform, previousMode = Waveform, isTransitioning = True,
        transitionProgress = 5 / 100\<rparr> ctx (Some a)
     = bindE (renderMode (fillRect ctx 0 0 (real (canvasWidth ctx)) (real (canvasHeight ctx)))
          Waveform a (95 / 100))
         (\<lambda>ctx1. bindE (renderMode ctx1 Waveform a (5 / 100))
         (\<lambda>ctx2. Inr (\<lparr>mode = Waveform, previousMode = Waveform, isTransitioning = True,
             transitionProgress = 10 / 100\<rparr>, ctx2)))"
  by (simp add: onModeChange_def modeChangeEffect_def initialState_def render_def Let_def
      advanceProgress_def bindE_Inr)

section \<open>Properties of the spectrogram\<close>

lemma length_copyPixel: "length (copyPixel src si di dst) = length dst"
  by (simp add: copyPixel_def)

lemma nth_copyPixel:
  "k < length dst \<Longrightarrow>
   copyPixel src si di dst ! k
     = (if di \<le> k \<and> k < di + 4 then readByte src (si + (k - di)) else dst ! k)"
proof -
  assume k: "k < length dst"
  consider "k = di" | "k = di + 1" | "k = di + 2" | "k = di + 3" | "k < di \<or> di + 4 \<le> k"
    by linarith
  then show ?thesis
    using k by cases (auto simp add: copyPixel_def nth_list_update)
qed

lemma length_fold_upd:
  "(\<And>x d. length (f x d) = length d) \<Longrightarrow> length (fold f xs dst) = length dst"
  by (induction xs arbitrary: dst) simp_all

lemma length_shiftRow: "length (shiftRow src cw y dst) = length dst"
  unfolding shiftRow_def by (rule length_fold_upd) (rule length_copyPixel)

lemma length_shiftLeft: "length (shiftLeft src cw ch dst) = length dst"
  unfolding shiftLeft_def by (rule length_fold_upd) (rule length_shiftRow)

lemma length_writeColumnPixel: "length (writeColumnPixel fd cw ch y dst) = length dst"
  by (simp add: writeColumnPixel_def Let_def)

lemma length_writeColumn: "length (writeColumn fd cw ch dst) = length dst"
  unfolding writeColumn_def by (rule length_fold_upd) (rule length_writeColumnPixel)

lemma length_fillBlack: "length (fillBlack dst) = length dst"
  unfolding fillBlack_def by (rule length_fold_upd) simp

lemma nth_shiftRow_upto:
  "k < length dst \<Longrightarrow>
   fold (\<lambda>x. copyPixel src (((y * cw) + (x + 1)) * 4) (((y * cw) + x) * 4)) [0..<n] dst ! k
     = (if (y * cw) * 4 \<le> k \<and> k < ((y * cw) + n) * 4 then readByte src (k + 4) else dst ! k)"
proof (induction n)
  case 0
  then show ?case by auto
next
  case (Suc n)
  let ?F = "\<lambda>x. copyPixel src (((y * cw) + (x + 1)) * 4) (((y * cw) + x) * 4)"
  define d where "d = fold ?F [0..<n] dst"
  define r where "r = fold ?F [0..<Suc n] dst"
  define di where "di = ((y * cw) + n) * 4"
  have len: "length d = length dst"
    unfolding d_def by (rule length_fold_upd) (rule length_copyPixel)
  have IH: "d ! k = (if (y * cw) * 4 \<le> k \<and> k < di then readByte src (k + 4) else dst ! k)"
    unfolding d_def di_def by (rule Suc.IH [OF Suc.prems])
  have "r = copyPixel src (di + 4) di d"
    unfolding r_def d_def di_def by (simp add: algebra_simps)
  then have e: "r ! k = (if di \<le> k \<and> k < di + 4 then readByte src (di + 4 + (k - di)) else d ! k)"
    using Suc.prems len by (simp only: nth_copyPixel)
  have lo: "(y * cw) * 4 \<le> di" and hi: "((y * cw) + Suc n) * 4 = di + 4"
    by (simp_all add: di_def)
  have "r ! k = (if (y * cw) * 4 \<le> k \<and> k < di + 4 then readByte src (k + 4) else dst ! k)"
  proof (cases "di \<le> k \<and> k < di + 4")
    case True
    then have "di + 4 + (k - di) = k + 4" by simp
    with e True lo show ?thesis by auto
  next
    case False
    with e IH lo show ?thesis by auto
  qed
  then show ?case unfolding r_def hi .
qed

lemma nth_shiftRow:
  "k < length dst \<Longrightarrow>
   shiftRow src cw y dst ! k
     = (if (y * cw) * 4 \<le> k \<and> k < ((y * cw) + (cw - 1)) * 4 then readByte src (k + 4)
        else dst ! k)"
  unfolding shiftRow_def by (rule nth_shiftRow_upto)

lemma nth_shiftLeft_upto:
  "k < length dst \<Longrightarrow>
   fold (shiftRow src cw) [0..<m] dst ! k
     = (if \<exists>y<m. (y * cw) * 4 \<le> k \<and> k < ((y * cw) + (cw - 1)) * 4 then readByte src (k + 4)
        else dst ! k)"
proof (induction m)
  case 0
  then show ?case by simp
next
  case (Suc m)
  define d where "d = fold (shiftRow src cw) [0..<m] dst"
  define r where "r = fold (shiftRow src cw) [0..<Suc m] dst"
  have len: "length d = length dst"
    unfolding d_def by (rule length_fold_upd) (rule length_shiftRow)
  have IH: "d ! k = (if \<exists>y<m. (y * cw) * 4 \<le> k \<and> k < ((y * cw) + (cw - 1)) * 4
       then readByte src (k + 4) else dst ! k)"
    unfolding d_def by (rule Suc.IH [OF Suc.prems])
  have "r = shiftRow src cw m d" unfolding r_def d_def by simp
  then have e: "r ! k = (if (m * cw) * 4 \<le> k \<and> k < ((m * cw) + (cw - 1)) * 4
       then readByte src (k + 4) else d ! k)"
    using Suc.prems len by (simp only: nth_shiftRow)
  have "r ! k = (if \<exists>y<Suc m. (y * cw) * 4 \<le> k \<and> k < ((y * cw) + (cw - 1)) * 4
       then readByte src (k + 4) else dst ! k)"
    unfolding e IH by (auto simp: less_Suc_eq)
  then show ?case unfolding r_def .
qed

lemma shiftLeft_pixel:
  assumes "x < cw - 1" and "c < 4" and "((y * cw) + x) * 4 + c < length dst" and "y < ch"
  shows "shiftLeft src cw ch dst ! (((y * cw) + x) * 4 + c)
           = readByte src (((y * cw) + (x + 1)) * 4 + c)"
proof -
  let ?k = "((y * cw) + x) * 4 + c"
  have "(y * cw) * 4 \<le> ?k \<and> ?k < ((y * cw) + (cw - 1)) * 4"
    using assms(1,2) by simp
  with assms(4) have ex: "\<exists>y'<ch. (y' * cw) * 4 \<le> ?k \<and> ?k < ((y' * cw) + (cw - 1)) * 4"
    by blast
  have "shiftLeft src cw ch dst ! ?k = readByte src (?k + 4)"
    unfolding shiftLeft_def using nth_shiftLeft_upto [OF assms(3), of src cw ch] ex by simp
  then show ?thesis by (simp add: algebra_simps)
qed


lemma writeColumnPixel_other:
  assumes "\<not> (((y * cw) + (cw - 1)) * 4 \<le> k \<and> k < ((y * cw) + (cw - 1)) * 4 + 4)"
  shows "writeColumnPixel fd cw ch y dst ! k = dst ! k"
  using assms by (auto simp add: writeColumnPixel_def Let_def)

lemma writeColumn_other_upto:
  assumes "\<And>y. \<not> (((y * cw) + (cw - 1)) * 4 \<le> k \<and> k < ((y * cw) + (cw - 1)) * 4 + 4)"
  shows "fold (writeColumnPixel fd cw ch) [0..<n] dst ! k = dst ! k"
proof (induction n)
  case 0
  then show ?case by simp
next
  case (Suc n)
  define d where "d = fold (writeColumnPixel fd cw ch) [0..<n] dst"
  have "fold (writeColumnPixel fd cw ch) [0..<Suc n] dst = writeColumnPixel fd cw ch n d"
    unfolding d_def by simp
  moreover have "writeColumnPixel fd cw ch n d ! k = d ! k"
    by (rule writeColumnPixel_other [OF assms])
  moreover have "d ! k = dst ! k" unfolding d_def by (rule Suc)
  ultimately show ?case by simp
qed

lemma column_apart_below:
  fixes A B x c cw :: nat
  assumes "x < cw - 1" and "c < 4" and "B + cw \<le> A"
  shows "\<not> (A + x) * 4 + c < (B + (cw - 1)) * 4 + 4"
  using assms by arith

lemma column_apart_above:
  fixes A B x c cw :: nat
  assumes "x < cw - 1" and "c < 4" and "A \<le> B"
  shows "\<not> (B + (cw - 1)) * 4 \<le> (A + x) * 4 + c"
  using assms by arith

lemma not_last_column:
  fixes x y y' c cw :: nat
  assumes "x < cw - 1" and "c < 4"
  shows "\<not> (((y' * cw) + (cw - 1)) * 4 \<le> ((y * cw) + x) * 4 + c \<and>
            ((y * cw) + x) * 4 + c < ((y' * cw) + (cw - 1)) * 4 + 4)"
proof (cases "y' < y")
  case True
  then have "Suc y' * cw \<le> y * cw" by (intro mult_le_mono1) simp
  then have "y' * cw + cw \<le> y * cw" by simp
  from column_apart_below [OF assms this] show ?thesis by blast
next
  case False
  then have "y * cw \<le> y' * cw" by (intro mult_le_mono1) simp
  from column_apart_above [OF assms this] show ?thesis by blast
qed

lemma writeColumn_keeps:
  assumes "x < cw - 1" and "c < 4"
  shows "writeColumn fd cw ch dst ! (((y * cw) + x) * 4 + c) = dst ! (((y * cw) + x) * 4 + c)"
  unfolding writeColumn_def
  by (rule writeColumn_other_upto) (rule not_last_column [OF assms])

lemma pixel_in_range:
  fixes x y c cw ch :: nat
  assumes "x < cw" and "y < ch" and "c < 4"
  shows "((y * cw) + x) * 4 + c < cw * ch * 4"
proof -
  have "Suc y * cw \<le> ch * cw" using assms(2) by (intro mult_le_mono1) simp
  then have "y * cw + cw \<le> cw * ch" by (simp add: mult.commute)
  with assms(1,3) show ?thesis by simp
qed

lemma nth_fillBlack_upto:
  fixes dst :: "byte list"
  shows "k < length dst \<Longrightarrow>
   fold (\<lambda>i d. d[i + 3 := 255]) (map (\<lambda>j. 4 * j) [0..<n]) dst ! k
     = (if k mod 4 = 3 \<and> k < 4 * n then 255 else dst ! k)"
proof (induction n)
  case 0
  then show ?case by simp
next
  case (Suc n)
  define d where "d = fold (\<lambda>i d. d[i + 3 := 255]) (map (\<lambda>j. 4 * j) [0..<n]) dst"
  define r where "r = fold (\<lambda>i d. d[i + 3 := 255]) (map (\<lambda>j. 4 * j) [0..<Suc n]) dst"
  have len: "length d = length dst"
    unfolding d_def by (rule length_fold_upd) simp
  have IH: "d ! k = (if k mod 4 = 3 \<and> k < 4 * n then 255 else dst ! k)"
    unfolding d_def by (rule Suc.IH [OF Suc.prems])
  have "r = d[4 * n + 3 := 255]" unfolding r_def d_def by simp
  then have e: "r ! k = (if k = 4 * n + 3 then 255 else d ! k)"
    using Suc.prems len by (simp add: nth_list_update)
  have "(k mod 4 = 3 \<and> k < 4 * Suc n) \<longleftrightarrow> (k = 4 * n + 3 \<or> (k mod 4 = 3 \<and> k < 4 * n))"
    by presburger
  then have "r ! k = (if k mod 4 = 3 \<and> k < 4 * Suc n then 255 else dst ! k)"
    unfolding e IH by auto
  then show ?case unfolding r_def .
qed

lemma nth_fillBlack:
  "k < length dst \<Longrightarrow> fillBlack dst ! k = (if k mod 4 = 3 then 255 else dst ! k)"
proof -
  assume k: "k < length dst"
  then have "k < 4 * ((length dst + 3) div 4)" by presburger
  with nth_fillBlack_upto [OF k, of "(length dst + 3) div 4"] show ?thesis
    by (simp add: fillBlack_def)
qed

lemma drawSpectrogram_None:
  assumes "spectrogramDataRef ctx = None" and "0 < cw" and "0 < ch"
  shows "drawSpectrogram ctx fd cw ch
     = Inr (ctx\<lparr>spectrogramDataRef :=
          Some \<lparr>width = cw, height = ch, data = fillBlack (replicate (cw * ch * 4) 0)\<rparr>\<rparr>)"
  using assms by (simp add: drawSpectrogram_def createImageData_def bindE_def)

lemma drawSpectrogram_Some:
  assumes "spectrogramDataRef ctx = Some old" and "0 < cw" and "0 < ch"
  shows "drawSpectrogram ctx fd cw ch
     = Inr (putImageData
         (ctx\<lparr>spectrogramDataRef := Some \<lparr>width = cw, height = ch,
             data = writeColumn fd cw ch (shiftLeft (data old) cw ch (replicate (cw * ch * 4) 0))\<rparr>\<rparr>)
         \<lparr>width = cw, height = ch,
             data = writeColumn fd cw ch (shiftLeft (data old) cw ch (replicate (cw * ch * 4) 0))\<rparr>)"
  using assms by (simp add: drawSpectrogram_def createImageData_def bindE_def Let_def)

lemma drawSpectrogram_buffer:
  assumes "0 < cw" and "0 < ch"
  shows "\<exists>ctx' img. drawSpectrogram ctx fd cw ch = Inr ctx' \<and> spectrogramDataRef ctx' = Some img \<and>
      width img = cw \<and> height img = ch \<and> length (data img) = cw * ch * 4"
proof (cases "spectrogramDataRef ctx")
  case None
  from drawSpectrogram_None [OF None assms] show ?thesis
    by (simp add: length_fillBlack)
next
  case (Some old)
  from drawSpectrogram_Some [OF Some assms] show ?thesis
    by (simp add: putImageData_def length_writeColumn length_shiftLeft)
qed

lemma drawSpectrogram_advance:
  assumes ref: "spectrogramDataRef ctx = Some img0" and pos: "0 < cw" "0 < ch"
  shows "\<exists>ctx1 img1. drawSpectrogram ctx fd cw ch = Inr ctx1 \<and> spectrogramDataRef ctx1 = Some img1 \<and>
      width img1 = cw \<and> height img1 = ch \<and> length (data img1) = cw * ch * 4 \<and>
      drawn ctx1 = drawn ctx @ [PutImageData img1] \<and>
      (\<forall>x y c. x < cw - 1 \<and> y < ch \<and> c < 4 \<longrightarrow>
         data img1 ! (((y * cw) + x) * 4 + c) = readByte (data img0) (((y * cw) + (x + 1)) * 4 + c))"
proof -
  let ?new = "writeColumn fd cw ch (shiftLeft (data img0) cw ch (replicate (cw * ch * 4) 0))"
  let ?img = "\<lparr>width = cw, height = ch, data = ?new\<rparr>"
  have px: "?new ! (((y * cw) + x) * 4 + c) = readByte (data img0) (((y * cw) + (x + 1)) * 4 + c)"
    if "x < cw - 1" "y < ch" "c < 4" for x y c
  proof -
    have x': "x < cw" using that(1) by simp
    have r1: "((y * cw) + x) * 4 + c < cw * ch * 4" by (rule pixel_in_range [OF x' that(2,3)])
    have "?new ! (((y * cw) + x) * 4 + c)
        = shiftLeft (data img0) cw ch (replicate (cw * ch * 4) 0) ! (((y * cw) + x) * 4 + c)"
      by (rule writeColumn_keeps [OF that(1,3)])
    also have "\<dots> = readByte (data img0) (((y * cw) + (x + 1)) * 4 + c)"
      by (rule shiftLeft_pixel [OF that(1,3) _ that(2)]) (simp only: length_replicate r1)
    finally show ?thesis .
  qed
  have len: "length ?new = cw * ch * 4"
    by (simp add: length_writeColumn length_shiftLeft)
  from drawSpectrogram_Some [OF ref pos, of fd] px len show ?thesis
    by (intro exI [of _ "putImageData (ctx\<lparr>spectrogramDataRef := Some ?img\<rparr>) ?img"] exI [of _ ?img])
       (simp add: putImageData_def)
qed


text \<open>
  Claim C8. On a canvas of positive size two successive calls of \<open>drawSpectrogram\<close> with
  frames \<open>F1\<close> and \<open>F2\<close> (of any length, from any state of the ref) both succeed and leave a
  buffer in the ref. Each call that finds a buffer in the ref shifts it left by one column:
  every pixel left of the last column of the new buffer is the pixel one column to its
  right in the buffer that was stored before the call, and the new buffer is blitted with
  \<open>putImageData\<close>. So the second buffer is the first shifted, in particular column
  \<open>width - 2\<close> of the second equals column \<open>width - 1\<close> of the first, and when the ref held
  a buffer before the first call the first buffer is that one shifted. When the ref is empty,
  the first call stores a \<open>width * height\<close> RGBA buffer in which every pixel is opaque black
  (no column is written) and draws nothing.
\<close>

theorem C8_spectrogram_shift:
  "0 < cw \<and> 0 < ch \<longrightarrow>
   (\<exists>ctx1 img1 ctx2 img2.
      drawSpectrogram ctx F1 cw ch = Inr ctx1 \<and> spectrogramDataRef ctx1 = Some img1 \<and>
      drawSpectrogram ctx1 F2 cw ch = Inr ctx2 \<and> spectrogramDataRef ctx2 = Some img2 \<and>
      (\<forall>x y c. x < cw - 1 \<and> y < ch \<and> c < 4 \<longrightarrow>
         data img2 ! (((y * cw) + x) * 4 + c) = data img1 ! (((y * cw) + (x + 1)) * 4 + c)) \<and>
      (2 \<le> cw \<longrightarrow> (\<forall>y c. y < ch \<and> c < 4 \<longrightarrow>
         data img2 ! (((y * cw) + (cw - 2)) * 4 + c) = data img1 ! (((y * cw) + (cw - 1)) * 4 + c))) \<and>
      drawn ctx2 = drawn ctx1 @ [PutImageData img2] \<and>
      (spectrogramDataRef ctx = None \<longrightarrow>
         width img1 = cw \<and> height img1 = ch \<and> length (data img1) = cw * ch * 4 \<and>
         (\<forall>k. k < cw * ch * 4 \<longrightarrow> data img1 ! k = (if k mod 4 = 3 then 255 else 0)) \<and>
         drawn ctx1 = drawn ctx) \<and>
      (\<forall>img0. spectrogramDataRef ctx = Some img0 \<longrightarrow>
         width img1 = cw \<and> height img1 = ch \<and> length (data img1) = cw * ch * 4 \<and>
         drawn ctx1 = drawn ctx @ [PutImageData img1] \<and>
         (\<forall>x y c. x < cw - 1 \<and> y < ch \<and> c < 4 \<longrightarrow>
            data img1 ! (((y * cw) + x) * 4 + c)
              = readByte (data img0) (((y * cw) + (x + 1)) * 4 + c))))"
proof
  assume "0 < cw \<and> 0 < ch"
  then have pos: "0 < cw" "0 < ch" by simp_all
  obtain ctx1 img1 where d1: "drawSpectrogram ctx F1 cw ch = Inr ctx1"
    and r1: "spectrogramDataRef ctx1 = Some img1"
    and l1: "length (data img1) = cw * ch * 4"
    using drawSpectrogram_buffer [OF pos, of ctx F1] by blast
  obtain ctx2 img2 where d2: "drawSpectrogram ctx1 F2 cw ch = Inr ctx2"
    and r2: "spectrogramDataRef ctx2 = Some img2"
    and p2: "drawn ctx2 = drawn ctx1 @ [PutImageData img2]"
    and s2: "\<forall>x y c. x < cw - 1 \<and> y < ch \<and> c < 4 \<longrightarrow>
         data img2 ! (((y * cw) + x) * 4 + c) = readByte (data img1) (((y * cw) + (x + 1)) * 4 + c)"
    using drawSpectrogram_advance [OF r1 pos, of F2] by blast
  have shift: "data img2 ! (((y * cw) + x) * 4 + c) = data img1 ! (((y * cw) + (x + 1)) * 4 + c)"
    if "x < cw - 1" "y < ch" "c < 4" for x y c
  proof -
    have "x + 1 < cw" using that(1) by simp
    from pixel_in_range [OF this that(2,3)] l1
    have "readByte (data img1) (((y * cw) + (x + 1)) * 4 + c)
        = data img1 ! (((y * cw) + (x + 1)) * 4 + c)"
      by (simp add: readByte_def)
    with s2 that show ?thesis by simp
  qed
  have col: "data img2 ! (((y * cw) + (cw - 2)) * 4 + c) = data img1 ! (((y * cw) + (cw - 1)) * 4 + c)"
    if "2 \<le> cw" "y < ch" "c < 4" for y c
  proof -
    have lt: "cw - 2 < cw - 1" and e: "cw - 2 + 1 = cw - 1" using that(1) by simp_all
    from shift [OF lt that(2,3)] show ?thesis by (simp only: e)
  qed
  have init: "width img1 = cw \<and> height img1 = ch \<and> length (data img1) = cw * ch * 4 \<and>
         (\<forall>k. k < cw * ch * 4 \<longrightarrow> data img1 ! k = (if k mod 4 = 3 then 255 else 0)) \<and>
         drawn ctx1 = drawn ctx" if "spectrogramDataRef ctx = None"
    using drawSpectrogram_None [OF that pos, of F1] d1 r1
    by (auto simp add: nth_fillBlack length_fillBlack)
  have adv: "width img1 = cw \<and> height img1 = ch \<and> length (data img1) = cw * ch * 4 \<and>
         drawn ctx1 = drawn ctx @ [PutImageData img1] \<and>
         (\<forall>x y c. x < cw - 1 \<and> y < ch \<and> c < 4 \<longrightarrow>
            data img1 ! (((y * cw) + x) * 4 + c)
              = readByte (data img0) (((y * cw) + (x + 1)) * 4 + c))"
    if "spectrogramDataRef ctx = Some img0" for img0
    using drawSpectrogram_advance [OF that pos, of F1] d1 r1 by auto
  show "\<exists>ctx1 img1 ctx2 img2.
      drawSpectrogram ctx F1 cw ch = Inr ctx1 \<and> spectrogramDataRef ctx1 = Some img1 \<and>
      drawSpectrogram ctx1 F2 cw ch = Inr ctx2 \<and> spectrogramDataRef ctx2 = Some img2 \<and>
      (\<forall>x y c. x < cw - 1 \<and> y < ch \<and> c < 4 \<longrightarrow>
         data img2 ! (((y * cw) + x) * 4 + c) = data img1 ! (((y * cw) + (x + 1)) * 4 + c)) \<and>
      (2 \<le> cw \<longrightarrow> (\<forall>y c. y < ch \<and> c < 4 \<longrightarrow>
         data img2 ! (((y * cw) + (cw - 2)) * 4 + c) = data img1 ! (((y * cw) + (cw - 1)) * 4 + c))) \<and>
      drawn ctx2 = drawn ctx1 @ [PutImageData img2] \<and>
      (spectrogramDataRef ctx = None \<longrightarrow>
         width img1 = cw \<and> height img1 = ch \<and> length (data img1) = cw * ch * 4 \<and>
         (\<forall>k. k < cw * ch * 4 \<longrightarrow> data img1 ! k = (if k mod 4 = 3 then 255 else 0)) \<and>
         drawn ctx1 = drawn ctx) \<and>
      (\<forall>img0. spectrogramDataRef ctx = Some img0 \<longrightarrow>
         width img1 = cw \<and> height img1 = ch \<and> length (data img1) = cw * ch * 4 \<and>
         drawn ctx1 = drawn ctx @ [PutImageData img1] \<and>
         (\<forall>x y c. x < cw - 1 \<and> y < ch \<and> c < 4 \<longrightarrow>
            data img1 ! (((y * cw) + x) * 4 + c)
              = readByte (data img0) (((y * cw) + (x + 1)) * 4 + c)))"
    using d1 r1 d2 r2 p2 shift col init adv
    by (intro exI [of _ ctx1] exI [of _ img1] exI [of _ ctx2] exI [of _ img2]) blast
qed

lemma spectrogram_first_call:
  "drawSpectrogram \<lparr>canvasWidth = 2, canvasHeight = 1, globalAlpha = 1, drawn = [],
       spectrogramDataRef = None\<rparr> [] 2 1
   = Inr \<lparr>canvasWidth = 2, canvasHeight = 1, globalAlpha = 1, drawn = [],
       spectrogramDataRef = Some \<lparr>width = 2, height = 1, data = [0, 0, 0, 255, 0, 0, 0, 255]\<rparr>\<rparr>"
  by code_simp

lemma spectrogram_second_call:
  "drawSpectrogram \<lparr>canvasWidth = 2, canvasHeight = 1, globalAlpha = 1, drawn = [],
       spectrogramDataRef = Some \<lparr>width = 2, height = 1, data = [0, 0, 0, 255, 0, 0, 0, 255]\<rparr>\<rparr>
     [255, 255] 2 1
   = Inr \<lparr>canvasWidth = 2, canvasHeight = 1, globalAlpha = 1,
       drawn = [PutImageData \<lparr>width = 2, height = 1, data = [0, 0, 0, 255, 255, 128, 0, 255]\<rparr>],
       spectrogramDataRef = Some \<lparr>width = 2, height = 1, data = [0, 0, 0, 255, 255, 128, 0, 255]\<rparr>\<rparr>"
  by code_simp


lemma spectrogram_third_call:
  "drawSpectrogram \<lparr>canvasWidth = 2, canvasHeight = 1, globalAlpha = 1,
       drawn = [PutImageData \<lparr>width = 2, height = 1, data = [0, 0, 0, 255, 255, 128, 0, 255]\<rparr>],
       spectrogramDataRef = Some \<lparr>width = 2, height = 1, data = [0, 0, 0, 255, 255, 128, 0, 255]\<rparr>\<rparr>
     [0, 0] 2 1
   = Inr \<lparr>canvasWidth = 2, canvasHeight = 1, globalAlpha = 1,
       drawn = [PutImageData \<lparr>width = 2, height = 1, data = [0, 0, 0, 255, 255, 128, 0, 255]\<rparr>,
                PutImageData \<lparr>width = 2, height = 1, data = [255, 128, 0, 255, 0, 0, 255, 255]\<rparr>],
       spectrogramDataRef = Some \<lparr>width = 2, height = 1, data = [255, 128, 0, 255, 0, 0, 255, 255]\<rparr>\<rparr>"
  by code_simp

text \<open>
  A canvas of 2 by 1 from an empty ref: the first call stores two opaque black pixels; a
  saturated frame appends the column \<open>(255,128,0,255)\<close>; a silent frame moves that column
  to the left and appends \<open>(0,0,255,255)\<close>.
\<close>

theorem C8_spectrogram_shift_witness:
  "0 < (2::nat) \<and> 0 < (1::nat) \<and> (2::nat) \<le> 2 \<and>
   spectrogramDataRef \<lparr>canvasWidth = 2, canvasHeight = 1, globalAlpha = 1, drawn = [],
       spectrogramDataRef = None\<rparr> = None \<and>
   (\<exists>ctx1 img1 ctx2 img2 ctx3 img3.
      drawSpectrogram \<lparr>canvasWidth = 2, canvasHeight = 1, globalAlpha = 1, drawn = [],
          spectrogramDataRef = None\<rparr> [] 2 1 = Inr ctx1 \<and>
      spectrogramDataRef ctx1 = Some img1 \<and>
      drawSpectrogram ctx1 [255, 255] 2 1 = Inr ctx2 \<and>
      spectrogramDataRef ctx2 = Some img2 \<and>
      drawSpectrogram ctx2 [0, 0] 2 1 = Inr ctx3 \<and>
      spectrogramDataRef ctx3 = Some img3 \<and>
      data img1 = [0, 0, 0, 255, 0, 0, 0, 255] \<and> drawn ctx1 = [] \<and>
      data img2 = [0, 0, 0, 255, 255, 128, 0, 255] \<and>
      data img3 = [255, 128, 0, 255, 0, 0, 255, 255] \<and>
      data img3 ! 0 = data img2 ! 4 \<and> data img3 ! 1 = data img2 ! 5 \<and>
      data img3 ! 2 = data img2 ! 6 \<and> data img3 ! 3 = data img2 ! 7 \<and>
      data img2 ! 0 = readByte (data img1) 4 \<and>
      data img3 ! 0 \<noteq> data img2 ! 0 \<and>
      drawn ctx3 = [PutImageData img2, PutImageData img3])"
proof -
  let ?ctx0 = "\<lparr>canvasWidth = 2, canvasHeight = 1, globalAlpha = 1, drawn = [],
       spectrogramDataRef = None\<rparr>"
  let ?img1 = "\<lparr>width = 2, height = 1, data = [0, 0, 0, 255, 0, 0, 0, 255]\<rparr>"
  let ?ctx1 = "\<lparr>canvasWidth = 2, canvasHeight = 1, globalAlpha = 1, drawn = [],
       spectrogramDataRef = Some ?img1\<rparr>"
  from C8_spectrogram_shift [of 2 1 ?ctx0 "[]" "[255, 255]"]
  obtain c1 i1 c2 i2 where a: "drawSpectrogram ?ctx0 [] 2 1 = Inr c1"
      "spectrogramDataRef c1 = Some i1" "drawSpectrogram c1 [255, 255] 2 1 = Inr c2"
      "spectrogramDataRef c2 = Some i2"
    and a0: "drawn c1 = drawn ?ctx0"
    by auto
  from a(1) have c1: "c1 = ?ctx1" unfolding spectrogram_first_call by simp
  with a(2) have i1: "i1 = ?img1" by simp
  from C8_spectrogram_shift [of 2 1 ?ctx1 "[255, 255]" "[0, 0]"]
  obtain d2 j2 d3 j3 where b: "drawSpectrogram ?ctx1 [255, 255] 2 1 = Inr d2"
      "spectrogramDataRef d2 = Some j2" "drawSpectrogram d2 [0, 0] 2 1 = Inr d3"
      "spectrogramDataRef d3 = Some j3"
    and shift: "\<forall>x y c. x < 2 - 1 \<and> y < 1 \<and> c < 4 \<longrightarrow>
         data j3 ! (((y * 2) + x) * 4 + c) = data j2 ! (((y * 2) + (x + 1)) * 4 + c)"
    and put: "drawn d3 = drawn d2 @ [PutImageData j3]"
    and stored: "\<forall>x y c. x < 2 - 1 \<and> y < 1 \<and> c < 4 \<longrightarrow>
            data j2 ! (((y * 2) + x) * 4 + c)
              = readByte (data ?img1) (((y * 2) + (x + 1)) * 4 + c)"
    and put2: "drawn d2 = drawn ?ctx1 @ [PutImageData j2]"
    by auto
  from a(3) b(1) have d2: "d2 = c2" unfolding c1 by simp
  with a(4) b(2) have j2: "j2 = i2" by simp
  from b(1) have d2e: "d2 = \<lparr>canvasWidth = 2, canvasHeight = 1, globalAlpha = 1,
       drawn = [PutImageData \<lparr>width = 2, height = 1, data = [0, 0, 0, 255, 255, 128, 0, 255]\<rparr>],
       spectrogramDataRef = Some \<lparr>width = 2, height = 1, data = [0, 0, 0, 255, 255, 128, 0, 255]\<rparr>\<rparr>"
    unfolding spectrogram_second_call by simp
  with b(2) have j2d: "data j2 = [0, 0, 0, 255, 255, 128, 0, 255]" by auto
  from b(3) have d3e: "d3 = \<lparr>canvasWidth = 2, canvasHeight = 1, globalAlpha = 1,
       drawn = [PutImageData \<lparr>width = 2, height = 1, data = [0, 0, 0, 255, 255, 128, 0, 255]\<rparr>,
                PutImageData \<lparr>width = 2, height = 1, data = [255, 128, 0, 255, 0, 0, 255, 255]\<rparr>],
       spectrogramDataRef = Some \<lparr>width = 2, height = 1, data = [255, 128, 0, 255, 0, 0, 255, 255]\<rparr>\<rparr>"
    unfolding d2e spectrogram_third_call by simp
  with b(4) have j3d: "data j3 = [255, 128, 0, 255, 0, 0, 255, 255]" by auto
  have s0: "data j3 ! 0 = data j2 ! 4" using shift [rule_format, of 0 0 0] by simp
  have s1: "data j3 ! 1 = data j2 ! 5" using shift [rule_format, of 0 0 1] by simp
  have s2: "data j3 ! 2 = data j2 ! 6" using shift [rule_format, of 0 0 2] by (simp add: numeral_2_eq_2)
  have s3: "data j3 ! 3 = data j2 ! 7" using shift [rule_format, of 0 0 3] by (simp add: numeral_3_eq_3)
  have t0: "data j2 ! 0 = readByte (data ?img1) 4" using stored [rule_format, of 0 0 0] by simp
  have ne: "data j3 ! 0 \<noteq> data j2 ! 0" by (simp add: j3d j2d)
  have dr: "drawn d3 = [PutImageData j2, PutImageData j3]" using put put2 by simp
  show ?thesis
    using a(1,2) b(3,4) a(3,4) c1 i1 d2 j2 j2d j3d s0 s1 s2 s3 t0 ne dr a0
    by (intro conjI exI [of _ c1] exI [of _ i1] exI [of _ c2] exI [of _ i2]
        exI [of _ d3] exI [of _ j3]) simp_all
qed

text \<open>
  Claim C2 as stated fails: the resize effect leaves \<open>spectrogramDataRef\<close> as it is. A
  buffer of 1 by 2 pixels survives a resize to 2 by 1, and the next advance reads it with the
  indices of the new size: the pixel \<open>(9,8,7,255)\<close> of its second row arrives in the first
  row of the new buffer, which is not a fresh opaque-black one.
\<close>

theorem C2_resize_keeps_buffer_counterexample:
  "spectrogramDataRef (resizeEffect
       \<lparr>canvasWidth = 1, canvasHeight = 2, globalAlpha = 1, drawn = [],
         spectrogramDataRef = Some \<lparr>width = 1, height = 2, data = [1,2,3,255,9,8,7,255]\<rparr>\<rparr> 2 1)
     = Some \<lparr>width = 1, height = 2, data = [1,2,3,255,9,8,7,255]\<rparr> \<and>
   (\<exists>ctx'. drawSpectrogram (resizeEffect
       \<lparr>canvasWidth = 1, canvasHeight = 2, globalAlpha = 1, drawn = [],
         spectrogramDataRef = Some \<lparr>width = 1, height = 2, data = [1,2,3,255,9,8,7,255]\<rparr>\<rparr> 2 1)
       [] 2 1 = Inr ctx' \<and>
      spectrogramDataRef ctx' = Some \<lparr>width = 2, height = 1, data = [9,8,7,255,0,0,0,0]\<rparr>)"
  by (simp add: resizeEffect_def fillRect_def drawSpectrogram_def createImageData_def
      bindE_def Let_def putImageData_def shiftLeft_def shiftRow_def copyPixel_def
      readByte_def writeColumn_def frequencyBins_def numeral_eq_Suc)


text \<open>
  Claim C2, amended. The resize effect changes the canvas size and not the ref: the
  accumulator keeps its state and its buffer. The next \<open>drawSpectrogram\<close> on the resized
  canvas (of positive size) succeeds and stores a newly allocated buffer of the new
  \<open>width * height\<close>, so every later advance finds a buffer of the current size.
\<close>

theorem C2_next_advance_reallocates:
  "spectrogramDataRef (resizeEffect ctx w h) = spectrogramDataRef ctx \<and>
   canvasWidth (resizeEffect ctx w h) = w \<and> canvasHeight (resizeEffect ctx w h) = h \<and>
   (0 < w \<and> 0 < h \<longrightarrow>
      (\<exists>ctx' img. drawSpectrogram (resizeEffect ctx w h) fd w h = Inr ctx' \<and>
         spectrogramDataRef ctx' = Some img \<and>
         width img = w \<and> height img = h \<and> length (data img) = w * h * 4))"
  using drawSpectrogram_buffer [of w h "resizeEffect ctx w h" fd]
  by (simp add: resizeEffect_def fillRect_def)

text \<open>The buffer of 1 by 2 pixels, after a resize to 2 by 1.\<close>

theorem C2_next_advance_reallocates_witness:
  "0 < (2::nat) \<and> 0 < (1::nat) \<and>
   (\<exists>ctx' img. drawSpectrogram (resizeEffect
       \<lparr>canvasWidth = 1, canvasHeight = 2, globalAlpha = 1, drawn = [],
         spectrogramDataRef = Some \<lparr>width = 1, height = 2, data = [1,2,3,255,9,8,7,255]\<rparr>\<rparr> 2 1)
       [255, 255] 2 1 = Inr ctx' \<and>
      spectrogramDataRef ctx' = Some img \<and>
      width img = 2 \<and> height img = 1 \<and> length (data img) = 8)"
  using C2_next_advance_reallocates [of
       "\<lparr>canvasWidth = 1, canvasHeight = 2, globalAlpha = 1, drawn = [],
         spectrogramDataRef = Some \<lparr>width = 1, height = 2, data = [1,2,3,255,9,8,7,255]\<rparr>\<rparr>"
       2 1 "[255, 255]"]
  by simp

end
